theory Spec2Isabelle
  imports
    Main
    "HOL-Library.Char_ord"
    "HOL-Library.List_Lexorder"
    "HOL-Library.AList"
    "HOL-Library.Multiset"
begin

text \<open>
  A shallow embedding of \<open>tools/scan_module_deps.cpp\<close>, the scanner that reads the
  C++20 module interface files (\<open>.ixx\<close>) of a project, resolves the dependencies between
  the modules and rewrites the \<open>module_dependencies\<close> field of every target in the
  project's \<open>BUILD\<close> file.  The functions keep the names they have in the source; the
  fields of \<open>ModuleInfo\<close> and \<open>BuildTarget\<close> carry the prefixes \<open>m_\<close> and \<open>t_\<close>.  The file
  system is a parameter, the console output is left out.
\<close>

section \<open>Strings\<close>

text \<open>
  \<open>std::string\<close> is a sequence of bytes, here \<^typ>\<open>string\<close>.  The order used by
  \<open>std::sort\<close> on strings is the lexicographic order of the bytes read as unsigned values,
  which is the order of \<open>HOL-Library.List_Lexorder\<close> over \<open>HOL-Library.Char_ord\<close>.
\<close>

definition starts_with :: "string \<Rightarrow> string \<Rightarrow> bool" where
  "starts_with s p \<longleftrightarrow> take (length p) s = p"

definition ends_with :: "string \<Rightarrow> string \<Rightarrow> bool" where
  "ends_with s p \<longleftrightarrow> length p \<le> length s \<and> drop (length s - length p) s = p"

text \<open>\<open>s.find(needle) != npos\<close>: some suffix of \<open>s\<close> starts with the needle.\<close>

primrec contains :: "string \<Rightarrow> string \<Rightarrow> bool" where
  "contains [] p = (p = [])"
| "contains (c # cs) p = (starts_with (c # cs) p \<or> contains cs p)"

text \<open>\<open>s.find(needle, from)\<close>: the first position \<open>\<ge> from\<close> at which the needle starts.\<close>

primrec find_from :: "string \<Rightarrow> string \<Rightarrow> nat \<Rightarrow> nat option" where
  "find_from [] p i = (if p = [] then Some i else None)"
| "find_from (c # cs) p i = (if starts_with (c # cs) p then Some i else find_from cs p (Suc i))"

definition find_str :: "string \<Rightarrow> string \<Rightarrow> nat \<Rightarrow> nat option" where
  "find_str s p from = (if length s < from then None else find_from (drop from s) p from)"

text \<open>\<open>s.substr(pos, n)\<close> for \<open>pos \<le> s.size()\<close>, and \<open>s.replace(pos, n, t)\<close>.\<close>

definition substr :: "string \<Rightarrow> nat \<Rightarrow> nat \<Rightarrow> string" where
  "substr s pos n = take n (drop pos s)"

definition replace_range :: "string \<Rightarrow> nat \<Rightarrow> nat \<Rightarrow> string \<Rightarrow> string" where
  "replace_range s pos n t = take pos s @ t @ drop (pos + n) s"

text \<open>\<open>std::sort\<close> followed by \<open>erase(std::unique(...))\<close>.\<close>

definition sort_unique :: "string list \<Rightarrow> string list" where
  "sort_unique xs = remdups_adj (sort xs)"

text \<open>Joining with a separator, as the \<open>if (i > 0) stream << ", "\<close> loops do.\<close>

fun join_with :: "string \<Rightarrow> string list \<Rightarrow> string" where
  "join_with sep [] = []"
| "join_with sep [x] = x"
| "join_with sep (x # y # ys) = x @ sep @ join_with sep (y # ys)"

section \<open>Regular expressions\<close>

text \<open>
  The subset of ECMAScript regular expressions that the tool's patterns are written in:
  literals, one character of a class, a greedy star, plus or option over a class or a
  character, an alternation and a capture group.  \<open>runs\<close> lists every way a sequence of
  items matches a prefix of the input, as (captures, rest of the input), in the order a
  backtracking matcher tries them (greedy first, left alternative first); the head of the
  list is the match \<open>std::regex\<close> reports at that position.
\<close>

datatype rx =
    Lit string
  | Cls "char \<Rightarrow> bool"
  | Star "char \<Rightarrow> bool"
  | Plus "char \<Rightarrow> bool"
  | Opt char
  | Alt "rx list" "rx list"
  | Grp "rx list"

definition greedy :: "(char \<Rightarrow> bool) \<Rightarrow> nat \<Rightarrow> string \<Rightarrow> (string list \<times> string) list" where
  "greedy P lo s =
     map (\<lambda>k. ([], drop k s)) (rev [lo ..< Suc (length (takeWhile P s))])"

fun runs :: "rx list \<Rightarrow> string \<Rightarrow> (string list \<times> string) list"
  and step :: "rx \<Rightarrow> string \<Rightarrow> (string list \<times> string) list" where
  "runs [] s = [([], s)]"
| "runs (r # rs) s =
     concat (map (\<lambda>(c1, s1). map (\<lambda>(c2, s2). (c1 @ c2, s2)) (runs rs s1)) (step r s))"
| "step (Lit l) s = (if starts_with s l then [([], drop (length l) s)] else [])"
| "step (Cls P) s = (case s of [] \<Rightarrow> [] | c # cs \<Rightarrow> if P c then [([], cs)] else [])"
| "step (Star P) s = greedy P 0 s"
| "step (Plus P) s = greedy P 1 s"
| "step (Opt c) s = (case s of [] \<Rightarrow> [] | d # ds \<Rightarrow> if d = c then [([], ds)] else []) @ [([], s)]"
| "step (Alt a b) s = runs a s @ runs b s"
| "step (Grp g) s = map (\<lambda>(c, r). (take (length s - length r) s # c, r)) (runs g s)"

text \<open>
  \<open>std::regex_search\<close>: the leftmost position with a match.  The result is the position,
  the captures and the input after the match.
\<close>

primrec regex_search_at :: "rx list \<Rightarrow> string \<Rightarrow> nat \<Rightarrow> (nat \<times> string list \<times> string) option" where
  "regex_search_at re [] i = (case runs re [] of [] \<Rightarrow> None | (caps, rest) # _ \<Rightarrow> Some (i, caps, rest))"
| "regex_search_at re (c # cs) i =
     (case runs re (c # cs) of
        [] \<Rightarrow> regex_search_at re cs (Suc i)
      | (caps, rest) # _ \<Rightarrow> Some (i, caps, rest))"

definition regex_search :: "rx list \<Rightarrow> string \<Rightarrow> (nat \<times> string list \<times> string) option" where
  "regex_search re s = regex_search_at re s 0"

text \<open>
  \<open>std::sregex_iterator\<close>: the successive non-overlapping matches, each search starting
  where the previous match ended.  Every pattern of the tool consumes at least one
  character, so the iterator's special step after an empty match never happens; the
  function stops there.
\<close>

function regex_iter :: "rx list \<Rightarrow> string \<Rightarrow> string list list" where
  "regex_iter re s =
     (case regex_search re s of
        None \<Rightarrow> []
      | Some (i, caps, rest) \<Rightarrow>
          if length rest < length s then caps # regex_iter re rest else [caps])"
  by pat_completeness auto
termination
  by (relation "measure (\<lambda>(re, s). length s)") auto

declare regex_iter.simps [simp del]

text \<open>
  \<open>std::regex_replace\<close> with a format string that has no \<open>$\<close> in it: every match is
  replaced by the format, the text between matches is kept.
\<close>

function regex_replace :: "string \<Rightarrow> rx list \<Rightarrow> string \<Rightarrow> string" where
  "regex_replace s re fmt =
     (case regex_search re s of
        None \<Rightarrow> s
      | Some (i, caps, rest) \<Rightarrow>
          if length rest < length s then take i s @ fmt @ regex_replace rest re fmt
          else take i s @ fmt @ rest)"
  by pat_completeness auto
termination
  by (relation "measure (\<lambda>(s, re, fmt). length s)") auto

declare regex_replace.simps [simp del]

definition is_space :: "char \<Rightarrow> bool" where
  "is_space c \<longleftrightarrow> c \<in> set [CHR '' '', CHR 0x09, CHR 0x0A, CHR 0x0B, CHR 0x0C, CHR 0x0D]"

definition is_alpha :: "char \<Rightarrow> bool" where
  "is_alpha c \<longleftrightarrow> (CHR ''a'' \<le> c \<and> c \<le> CHR ''z'') \<or> (CHR ''A'' \<le> c \<and> c \<le> CHR ''Z'')"

definition is_digit :: "char \<Rightarrow> bool" where
  "is_digit c \<longleftrightarrow> CHR ''0'' \<le> c \<and> c \<le> CHR ''9''"

text \<open>\<open>[a-zA-Z_]\<close>, \<open>[a-zA-Z_:]\<close> and \<open>[a-zA-Z0-9_.:]\<close>.\<close>

definition name_start :: "char \<Rightarrow> bool" where
  "name_start c \<longleftrightarrow> is_alpha c \<or> c = CHR ''_''"

definition import_start :: "char \<Rightarrow> bool" where
  "import_start c \<longleftrightarrow> is_alpha c \<or> c = CHR ''_'' \<or> c = CHR '':''"

definition name_char :: "char \<Rightarrow> bool" where
  "name_char c \<longleftrightarrow> is_alpha c \<or> is_digit c \<or> c = CHR ''_'' \<or> c = CHR ''.'' \<or> c = CHR '':''"

definition export_module_regex :: "rx list" where
  "export_module_regex =
     [Lit ''export'', Plus is_space, Lit ''module'', Plus is_space,
      Grp [Cls name_start, Star name_char], Star is_space, Lit '';'']"

definition import_module_regex :: "rx list" where
  "import_module_regex =
     [Lit ''import'', Plus is_space,
      Grp [Cls import_start, Star name_char], Star is_space, Lit '';'']"

definition export_import_regex :: "rx list" where
  "export_import_regex =
     [Lit ''export'', Plus is_space, Lit ''import'', Plus is_space,
      Grp [Cls import_start, Star name_char], Star is_space, Lit '';'']"

definition build_target_regex :: "rx list" where
  "build_target_regex =
     [Grp [Alt [Lit ''cc_module_library''] [Lit ''cc_module_binary'']],
      Star is_space, Lit ''('', Star is_space, Lit ''name'', Star is_space, Lit ''='',
      Star is_space, Lit [CHR 0x22], Grp [Plus (\<lambda>c. c \<noteq> CHR 0x22)], Lit [CHR 0x22]]"

definition module_interfaces_regex :: "rx list" where
  "module_interfaces_regex =
     [Lit ''module_interfaces'', Star is_space, Lit ''='', Star is_space,
      Grp [Alt [Lit ''['', Star (\<lambda>c. c \<noteq> CHR '']''), Lit '']'']
               [Lit ''glob('', Star (\<lambda>c. c \<noteq> CHR '')''), Lit '')'']]]"

definition glob_pattern :: "rx list" where
  "glob_pattern =
     [Lit ''glob('', Star is_space, Lit ''['', Star is_space,
      Grp [Plus (\<lambda>c. c \<noteq> CHR '']'')], Star is_space, Lit '']'', Star is_space, Lit '')'']"

definition glob_expr_pattern :: "rx list" where
  "glob_expr_pattern = [Lit [CHR 0x22], Grp [Plus (\<lambda>c. c \<noteq> CHR 0x22)], Lit [CHR 0x22]]"

definition file_pattern :: "rx list" where
  "file_pattern =
     [Lit [CHR 0x22], Grp [Plus (\<lambda>c. c \<noteq> CHR 0x22), Lit ''.ixx''], Lit [CHR 0x22]]"

definition existing_deps_regex :: "rx list" where
  "existing_deps_regex =
     [Lit ''module_dependencies'', Star is_space, Lit ''='', Star is_space,
      Lit ''{'', Star (\<lambda>c. c \<noteq> CHR ''}''), Lit ''}'', Opt CHR '','']"

text \<open>The first capture of a match (\<open>match[1]\<close>, \<open>iter->str(1)\<close>).\<close>

definition group1 :: "string list \<Rightarrow> string" where
  "group1 caps = (case caps of [] \<Rightarrow> [] | g # _ \<Rightarrow> g)"

definition group2 :: "string list \<Rightarrow> string" where
  "group2 caps = (case caps of g # h # _ \<Rightarrow> h | _ \<Rightarrow> [])"

text \<open>The iterator again, with the position of each match in the whole text.\<close>

function regex_iter_pos :: "rx list \<Rightarrow> string \<Rightarrow> nat \<Rightarrow> (nat \<times> string list) list" where
  "regex_iter_pos re s off =
     (case regex_search re s of
        None \<Rightarrow> []
      | Some (i, caps, rest) \<Rightarrow>
          if length rest < length s
          then (off + i, caps) # regex_iter_pos re rest (off + (length s - length rest))
          else [(off + i, caps)])"
  by pat_completeness auto
termination
  by (relation "measure (\<lambda>(re, s, off). length s)") auto

declare regex_iter_pos.simps [simp del]


section \<open>The module table and the dependency resolver\<close>

record ModuleInfo =
  m_name :: string
  m_imports :: "string list"
  m_file_path :: string
  m_filename_valid :: bool
  m_expected_filename :: string

text \<open>
  A \<open>std::unordered_map\<close> is an association list with distinct keys, written with
  \<^const>\<open>AList.update\<close> (\<open>m[k] = v\<close>) and read with \<^const>\<open>map_of\<close>; the list keeps the
  order in which the keys were inserted.  The order in which the standard library
  enumerates the map is another matter: where it shows in what the tool writes (the
  patcher) it is taken from the library, see \<open>library_order\<close> below.  The resolver and
  the calculator store under keys and read by key only, so their loops run in list order.
\<close>

type_synonym module_table = "(string \<times> ModuleInfo) list"
type_synonym dep_table = "(string \<times> string list) list"

text \<open>The parent of a module name: the text before its first \<open>:\<close>, or the whole name.\<close>

definition main_module_of :: "string \<Rightarrow> string" where
  "main_module_of module_name =
     (if CHR '':'' \<in> set module_name then takeWhile (\<lambda>c. c \<noteq> CHR '':'') module_name
      else module_name)"

text \<open>The first loop of \<open>processModuleDependencies\<close>, over the imports of one module.\<close>

fun clean_explicit :: "string \<Rightarrow> string list \<Rightarrow> string list" where
  "clean_explicit module_name [] = []"
| "clean_explicit module_name (imp # rest) =
     (if imp \<noteq> [] \<and> imp \<noteq> module_name then
        (if starts_with imp '':'' then main_module_of module_name @ imp else imp)
          # clean_explicit module_name rest
      else clean_explicit module_name rest)"

text \<open>The second loop: a module without \<open>:\<close> gets every \<open>name:...\<close> of the table.\<close>

definition partitions_of :: "module_table \<Rightarrow> string \<Rightarrow> string list" where
  "partitions_of modules module_name =
     (if CHR '':'' \<notin> set module_name
      then filter (\<lambda>other_name. starts_with other_name (module_name @ '':'')) (map fst modules)
      else [])"

definition clean_imports :: "module_table \<Rightarrow> string \<Rightarrow> ModuleInfo \<Rightarrow> string list" where
  "clean_imports modules module_name module_info =
     clean_explicit module_name (m_imports module_info) @ partitions_of modules module_name"

definition process_module :: "module_table \<Rightarrow> string \<times> ModuleInfo \<Rightarrow> dep_table \<Rightarrow> dep_table" where
  "process_module modules entry module_deps =
     (let ci = clean_imports modules (fst entry) (snd entry)
      in if ci \<noteq> [] then AList.update (fst entry) (sort_unique ci) module_deps
         else module_deps)"

definition processModuleDependencies :: "module_table \<Rightarrow> dep_table \<Rightarrow> dep_table" where
  "processModuleDependencies modules module_deps =
     fold (process_module modules) modules module_deps"

section \<open>Paths and the file system\<close>

text \<open>
  A \<open>std::filesystem::path\<close> is its generic-format text, with \<open>/\<close> as the separator.
  \<open>path_append\<close> is \<open>operator/\<close>, \<open>filename\<close>, \<open>extension\<close> and \<open>parent_path\<close> are the
  member functions of the same names; all of them work on the text alone.
\<close>

definition path_append :: "string \<Rightarrow> string \<Rightarrow> string" where
  "path_append p q =
     (if starts_with q ''/'' then q
      else if p = [] \<or> ends_with p ''/'' then p @ q
      else p @ ''/'' @ q)"

definition filename :: "string \<Rightarrow> string" where
  "filename p = rev (takeWhile (\<lambda>c. c \<noteq> CHR ''/'') (rev p))"

definition extension :: "string \<Rightarrow> string" where
  "extension p =
     (let f = filename p; stem_rev = dropWhile (\<lambda>c. c \<noteq> CHR ''.'') (rev f)
      in if f = ''.'' \<or> f = ''..'' \<or> length stem_rev \<le> 1 then []
         else drop (length stem_rev - 1) f)"

definition parent_path :: "string \<Rightarrow> string" where
  "parent_path p =
     (let dir_rev = dropWhile (\<lambda>c. c \<noteq> CHR ''/'') (rev p);
          stripped = dropWhile (\<lambda>c. c = CHR ''/'') dir_rev
      in if dir_rev = [] then []
         else if stripped = [] then ''/''
         else rev stripped)"

record dir_entry =
  e_path :: string
  e_is_regular_file :: bool

text \<open>
  The snapshot of the file system a run works on.  \<open>fs_read\<close> is \<open>None\<close> where
  \<open>std::ifstream\<close> fails to open, \<open>fs_writable\<close> says whether \<open>std::ofstream\<close> opens.
  The two iterators give the entries in the order the operating system enumerates them,
  and \<open>None\<close> where constructing the iterator throws \<open>filesystem_error\<close>.
  \<open>fs_relative\<close> is \<open>std::filesystem::relative\<close>.
\<close>

record filesystem =
  fs_exists :: "string \<Rightarrow> bool"
  fs_read :: "string \<Rightarrow> string option"
  fs_writable :: "string \<Rightarrow> bool"
  fs_directory_iterator :: "string \<Rightarrow> dir_entry list option"
  fs_recursive_directory_iterator :: "string \<Rightarrow> dir_entry list option"
  fs_relative :: "string \<Rightarrow> string \<Rightarrow> string"

text \<open>
  How a run ends without returning from \<open>main\<close>: an exception nobody catches
  (\<open>filesystem_error\<close>, \<open>regex_error\<close>), or the integer division by zero in
  \<open>scanProjectModules\<close>.
\<close>

datatype failure = FilesystemError | DivisionByZero | RegexError

text \<open>
  Two things the tool leaves to the standard library at run time.

  \<open>lib_regex\<close> is \<open>std::regex\<close> on a pattern that is only known at run time:
  \<open>lib_regex lib pattern\<close> is \<open>None\<close> where constructing \<open>std::regex(pattern)\<close> throws
  \<open>regex_error\<close>, and otherwise the function that gives, for a text,
  \<open>match.position()\<close> of \<open>std::regex_search\<close> on it (\<open>None\<close>: no match).  The patterns
  written in the source are translated above; the one \<open>updateBuildFile\<close> builds from
  a target's type and name goes through \<open>lib_regex\<close>.

  \<open>lib_map_order\<close> is the order in which a range-for enumerates a
  \<open>std::unordered_map\<close> with \<open>std::string\<close> keys: given the keys in the order they were
  inserted, the keys in the order they are visited.
\<close>

record library =
  lib_regex :: "string \<Rightarrow> (string \<Rightarrow> nat option) option"
  lib_map_order :: "string list \<Rightarrow> string list"

definition library_order :: "library \<Rightarrow> (string \<times> 'v) list \<Rightarrow> (string \<times> 'v) list" where
  "library_order lib table =
     concat (map (\<lambda>key. case map_of table key of None \<Rightarrow> [] | Some v \<Rightarrow> [(key, v)])
                 (lib_map_order lib (map fst table)))"

section \<open>The interface-file parser\<close>

definition validateFilenameModuleName :: "string \<Rightarrow> string \<Rightarrow> bool \<times> string" where
  "validateFilenameModuleName fname module_name =
     (let base_name = (if ends_with fname ''.ixx'' then take (length fname - 4) fname else fname);
          expected_filename =
            map (\<lambda>c. if c = CHR '':'' then CHR ''-'' else c) module_name @ ''.ixx''
      in (base_name = take (length expected_filename - 4) expected_filename, expected_filename))"

definition MAX_READ_SIZE :: nat where
  "MAX_READ_SIZE = 8192"

text \<open>\<open>file.read(content.data(), MAX_READ_SIZE)\<close>: at most the first 8192 bytes.\<close>

definition read_prefix :: "string \<Rightarrow> string" where
  "read_prefix bytes = take MAX_READ_SIZE bytes"

text \<open>
  The same prefix computed with a binary counter; it is the code equation of
  \<open>read_prefix\<close>, so that evaluating a short file does not count to 8192 in unary.
\<close>

fun prefix_upto :: "int \<Rightarrow> string \<Rightarrow> string" where
  "prefix_upto n [] = []"
| "prefix_upto n (c # cs) = (if n \<le> 0 then [] else c # prefix_upto (n - 1) cs)"

definition keep_import :: "string \<Rightarrow> bool" where
  "keep_import import_name \<longleftrightarrow>
     import_name \<noteq> [] \<and> \<not> ends_with import_name ''.h'' \<and> \<not> ends_with import_name ''.hpp''"

text \<open>What \<open>extractModuleInfo\<close> makes of the bytes it has read from the file.\<close>

definition module_info_of :: "string \<Rightarrow> string \<Rightarrow> ModuleInfo" where
  "module_info_of path content =
     (let info = \<lparr>m_name = [], m_imports = [], m_file_path = path,
                  m_filename_valid = True, m_expected_filename = []\<rparr>;
          info1 =
            (case regex_search export_module_regex content of
               None \<Rightarrow> info
             | Some (i, caps, rest) \<Rightarrow>
                 (let v = validateFilenameModuleName (filename path) (group1 caps)
                  in info\<lparr>m_name := group1 caps, m_filename_valid := fst v,
                          m_expected_filename := snd v\<rparr>));
          plain = filter keep_import (map group1 (regex_iter import_module_regex content));
          exported = filter keep_import (map group1 (regex_iter export_import_regex content))
      in info1\<lparr>m_imports := sort_unique (plain @ exported)\<rparr>)"

definition extractModuleInfo :: "filesystem \<Rightarrow> string \<Rightarrow> ModuleInfo" where
  "extractModuleInfo fs path =
     (case fs_read fs path of
        None \<Rightarrow> \<lparr>m_name = [], m_imports = [], m_file_path = path,
                  m_filename_valid = True, m_expected_filename = []\<rparr>
      | Some bytes \<Rightarrow> module_info_of path (read_prefix bytes))"

section \<open>The parallel scanner\<close>

text \<open>
  The loop that hands out the chunks: worker \<open>i\<close> gets the half-open range from \<open>start\<close>
  to \<open>start + chunk_size + (i < remainder ? 1 : 0)\<close>.  The first argument counts the
  workers still to start.
\<close>

primrec chunk_ranges :: "nat \<Rightarrow> nat \<Rightarrow> nat \<Rightarrow> nat \<Rightarrow> nat \<Rightarrow> (nat \<times> nat) list" where
  "chunk_ranges 0 i start chunk_size remainder = []"
| "chunk_ranges (Suc k) i start chunk_size remainder =
     (let stop = start + chunk_size + (if i < remainder then 1 else 0)
      in (start, stop) # chunk_ranges k (Suc i) stop chunk_size remainder)"

text \<open>One worker: the files of its range, in order, without those that name no module.\<close>

definition worker :: "filesystem \<Rightarrow> string list \<Rightarrow> nat \<times> nat \<Rightarrow> ModuleInfo list" where
  "worker fs ixx_files bounds =
     filter (\<lambda>info. m_name info \<noteq> [])
       (map (extractModuleInfo fs) (take (snd bounds - fst bounds) (drop (fst bounds) ixx_files)))"

definition merge_results :: "ModuleInfo list \<Rightarrow> module_table \<Rightarrow> module_table" where
  "merge_results results modules = fold (\<lambda>info. AList.update (m_name info) info) results modules"

text \<open>
  The fork and the join for a given number of workers (at least one): the futures are
  read in the order they were started, so the merge sees the chunks in list order
  whatever the scheduling was.
\<close>

definition scan_files :: "filesystem \<Rightarrow> nat \<Rightarrow> string list \<Rightarrow> module_table \<Rightarrow> module_table" where
  "scan_files fs num_threads ixx_files modules =
     (let chunk_size = length ixx_files div num_threads;
          remainder = length ixx_files mod num_threads;
          futures = map (worker fs ixx_files) (chunk_ranges num_threads 0 0 chunk_size remainder)
      in fold merge_results futures modules)"

text \<open>
  The scan as the specification words it for one worker: the files parsed one after the
  other in list order, each informative result stored under its module name.
\<close>

definition sequential_scan :: "filesystem \<Rightarrow> string list \<Rightarrow> module_table \<Rightarrow> module_table" where
  "sequential_scan fs ixx_files modules =
     fold (\<lambda>file table.
             (let info = extractModuleInfo fs file
              in if m_name info \<noteq> [] then AList.update (m_name info) info table else table))
          ixx_files modules"

record BuildTarget =
  t_name :: string
  t_type :: string
  t_module_interfaces :: "string list"
  t_module_dependencies :: dep_table

record ModuleScanner =
  modules :: module_table
  module_deps :: dep_table
  build_targets :: "(string \<times> BuildTarget) list"

definition new_scanner :: ModuleScanner where
  "new_scanner = \<lparr>modules = [], module_deps = [], build_targets = []\<rparr>"

definition is_ixx_file :: "dir_entry \<Rightarrow> bool" where
  "is_ixx_file e \<longleftrightarrow> e_is_regular_file e \<and> extension (e_path e) = ''.ixx''"

text \<open>\<open>static_cast<unsigned int>\<close> of a \<open>size_t\<close>.\<close>

definition cast_unsigned_int :: "nat \<Rightarrow> nat" where
  "cast_unsigned_int n = n mod 2 ^ 32"

text \<open>
  \<open>hw\<close> is \<open>std::thread::hardware_concurrency()\<close>; the number of files is cast to
  \<open>unsigned int\<close> before the minimum is taken.  With no worker the division that computes
  the chunk size divides by zero.
\<close>

definition scanProjectModules ::
    "filesystem \<Rightarrow> nat \<Rightarrow> string \<Rightarrow> ModuleScanner \<Rightarrow> failure + ModuleScanner" where
  "scanProjectModules fs hw project_root st =
     (case fs_recursive_directory_iterator fs project_root of
        None \<Rightarrow> Inl FilesystemError
      | Some entries \<Rightarrow>
          (let ixx_files = map e_path (filter is_ixx_file entries);
               num_threads = min hw (cast_unsigned_int (length ixx_files))
           in if num_threads = 0 then Inl DivisionByZero
              else
                (let table = scan_files fs num_threads ixx_files (modules st)
                 in Inr (st\<lparr>modules := table,
                            module_deps := processModuleDependencies table (module_deps st)\<rparr>))))"

section \<open>The build-descriptor reader\<close>

definition strip_slash :: "string \<Rightarrow> string" where
  "strip_slash dir_path =
     (if ends_with dir_path ''/'' then take (length dir_path - 1) dir_path else dir_path)"

text \<open>
  The paths one glob expression adds to the target's interface list, in the order the
  directory iterator gives the entries.  The recursive form looks at regular files only,
  the single-level form at every entry of the directory.
\<close>

definition glob_matches ::
    "filesystem \<Rightarrow> (dir_entry \<Rightarrow> bool) \<Rightarrow> dir_entry list \<Rightarrow> string \<Rightarrow> string list" where
  "glob_matches fs keep entries project_root =
     map (\<lambda>entry. fs_relative fs (e_path entry) project_root) (filter keep entries)"

definition processGlobExpression ::
    "filesystem \<Rightarrow> string \<Rightarrow> BuildTarget \<Rightarrow> string \<Rightarrow> failure + BuildTarget" where
  "processGlobExpression fs glob_expr target project_root =
     (if ends_with glob_expr ''**/*.ixx'' then
        (let dir_path = strip_slash (take (length glob_expr - 8) glob_expr);
             full_dir_path = path_append project_root dir_path
         in if fs_exists fs full_dir_path then
              (case fs_recursive_directory_iterator fs full_dir_path of
                 None \<Rightarrow> Inl FilesystemError
               | Some entries \<Rightarrow>
                   Inr (target\<lparr>t_module_interfaces := t_module_interfaces target
                          @ glob_matches fs is_ixx_file entries project_root\<rparr>))
            else Inr target)
      else if ends_with glob_expr ''*.ixx'' then
        (let dir_path = strip_slash (take (length glob_expr - 5) glob_expr);
             full_dir_path = path_append project_root dir_path
         in if fs_exists fs full_dir_path then
              (case fs_directory_iterator fs full_dir_path of
                 None \<Rightarrow> Inl FilesystemError
               | Some entries \<Rightarrow>
                   Inr (target\<lparr>t_module_interfaces := t_module_interfaces target
                          @ glob_matches fs (\<lambda>entry. extension (e_path entry) = ''.ixx'')
                              entries project_root\<rparr>))
            else Inr target)
      else Inr target)"

text \<open>The loop over the quoted expressions of one \<open>glob([...])\<close>; an exception ends it.\<close>

fun process_globs ::
    "filesystem \<Rightarrow> string list \<Rightarrow> BuildTarget \<Rightarrow> string \<Rightarrow> failure + BuildTarget" where
  "process_globs fs [] target project_root = Inr target"
| "process_globs fs (glob_expr # rest) target project_root =
     (case processGlobExpression fs glob_expr target project_root of
        Inl err \<Rightarrow> Inl err
      | Inr target' \<Rightarrow> process_globs fs rest target' project_root)"

definition parseModuleInterfaces ::
    "filesystem \<Rightarrow> string \<Rightarrow> BuildTarget \<Rightarrow> string \<Rightarrow> failure + BuildTarget" where
  "parseModuleInterfaces fs interfaces_str target project_root =
     (if contains interfaces_str ''glob('' then
        (case regex_search glob_pattern interfaces_str of
           None \<Rightarrow> Inr target
         | Some (i, caps, rest) \<Rightarrow>
             process_globs fs (map group1 (regex_iter glob_expr_pattern (group1 caps)))
               target project_root)
      else
        Inr (target\<lparr>t_module_interfaces := t_module_interfaces target
               @ map group1 (regex_iter file_pattern interfaces_str)\<rparr>))"

text \<open>
  The bracket-balancing scan over the text from the start of a target: the position of
  the parenthesis that closes the first one opened (or the end of the text), and the
  count reached there.  The count is the source's \<open>int\<close>, taken as unbounded: it cannot
  overflow on a text of fewer than \<open>2^31\<close> parentheses.
\<close>

fun paren_scan :: "string \<Rightarrow> nat \<Rightarrow> int \<Rightarrow> bool \<Rightarrow> nat \<times> int" where
  "paren_scan [] pos paren_count found_open = (pos, paren_count)"
| "paren_scan (c # cs) pos paren_count found_open =
     (if c = CHR ''('' then paren_scan cs (Suc pos) (paren_count + 1) True
      else if c = CHR '')'' then
        (if found_open \<and> paren_count - 1 = 0 then (pos, paren_count - 1)
         else paren_scan cs (Suc pos) (paren_count - 1) found_open)
      else paren_scan cs (Suc pos) paren_count found_open)"

text \<open>One match of \<open>build_target_regex\<close> at \<open>start_pos\<close> with its two captures.\<close>

definition parse_target ::
    "filesystem \<Rightarrow> string \<Rightarrow> string \<Rightarrow> nat \<times> string list \<Rightarrow> ModuleScanner
      \<Rightarrow> failure + ModuleScanner" where
  "parse_target fs build_file_path content m st =
     (let start_pos = fst m;
          target = \<lparr>t_name = group2 (snd m), t_type = group1 (snd m),
                    t_module_interfaces = [], t_module_dependencies = []\<rparr>;
          scan = paren_scan (drop start_pos content) start_pos 0 False
      in if snd scan = 0 then
           (let target_content = substr content start_pos (fst scan - start_pos + 1)
            in case (case regex_search module_interfaces_regex target_content of
                       None \<Rightarrow> Inr target
                     | Some (i, caps, rest) \<Rightarrow>
                         parseModuleInterfaces fs (group1 caps) target
                           (parent_path build_file_path)) of
                 Inl err \<Rightarrow> Inl err
               | Inr target' \<Rightarrow>
                   Inr (st\<lparr>build_targets :=
                          AList.update (t_name target') target' (build_targets st)\<rparr>))
         else Inr st)"

fun parse_targets ::
    "filesystem \<Rightarrow> string \<Rightarrow> string \<Rightarrow> (nat \<times> string list) list \<Rightarrow> ModuleScanner
      \<Rightarrow> failure + ModuleScanner" where
  "parse_targets fs build_file_path content [] st = Inr st"
| "parse_targets fs build_file_path content (m # ms) st =
     (case parse_target fs build_file_path content m st of
        Inl err \<Rightarrow> Inl err
      | Inr st' \<Rightarrow> parse_targets fs build_file_path content ms st')"

definition parseBuildFile ::
    "filesystem \<Rightarrow> string \<Rightarrow> ModuleScanner \<Rightarrow> failure + ModuleScanner" where
  "parseBuildFile fs build_file_path st =
     (case fs_read fs build_file_path of
        None \<Rightarrow> Inr st
      | Some content \<Rightarrow>
          parse_targets fs build_file_path content
            (regex_iter_pos build_target_regex content 0) st)"

section \<open>The target-dependency calculator\<close>

definition target_dependency :: "filesystem \<Rightarrow> string \<Rightarrow> dep_table \<Rightarrow> string \<Rightarrow> dep_table \<Rightarrow> dep_table" where
  "target_dependency fs project_root deps interface_file target_deps =
     (let path = path_append (path_append project_root ''src'') interface_file
      in if fs_exists fs path then
           (let info = extractModuleInfo fs path
            in if m_name info \<noteq> [] then
                 (case map_of deps (m_name info) of
                    None \<Rightarrow> target_deps
                  | Some ds \<Rightarrow> AList.update (m_name info) ds target_deps)
               else target_deps)
         else target_deps)"

definition calculateTargetDependencies :: "filesystem \<Rightarrow> string \<Rightarrow> ModuleScanner \<Rightarrow> ModuleScanner" where
  "calculateTargetDependencies fs project_root st =
     st\<lparr>build_targets :=
          map (\<lambda>(target_name, target).
                 (target_name,
                  target\<lparr>t_module_dependencies :=
                    fold (target_dependency fs project_root (module_deps st))
                      (t_module_interfaces target) (t_module_dependencies target)\<rparr>))
              (build_targets st)\<rparr>"

section \<open>The descriptor patcher\<close>

definition quoted :: "string \<Rightarrow> string" where
  "quoted s = [CHR 0x22] @ s @ [CHR 0x22]"

text \<open>The UTF-8 bytes of the two Chinese fragments of the warning comment.\<close>

definition warning_intro :: string where
  "warning_intro =
     [CHR 0x2C, CHR 0x20, CHR 0x23, CHR 0x20, CHR 0xE8, CHR 0xAD, CHR 0xA6, CHR 0xE5, CHR 0x91,
      CHR 0x8A, CHR 0x3A, CHR 0x20, CHR 0xE4, CHR 0xBB, CHR 0xA5, CHR 0xE4, CHR 0xB8, CHR 0x8B,
      CHR 0xE6, CHR 0xA8, CHR 0xA1, CHR 0xE5, CHR 0x9D, CHR 0x97, CHR 0xE6, CHR 0x96, CHR 0x87,
      CHR 0xE4, CHR 0xBB, CHR 0xB6, CHR 0xE5, CHR 0x90, CHR 0x8D, CHR 0xE4, CHR 0xB8, CHR 0x8D,
      CHR 0xE8, CHR 0xA7, CHR 0x84, CHR 0xE8, CHR 0x8C, CHR 0x83, CHR 0x3A, CHR 0x20]"

definition expected_intro :: string where
  "expected_intro =
     [CHR 0x20, CHR 0x28, CHR 0xE6, CHR 0x9C, CHR 0x9F, CHR 0xE6, CHR 0x9C, CHR 0x9B, CHR 0x3A,
      CHR 0x20]"

definition dep_line :: "string \<times> string list \<Rightarrow> string" where
  "dep_line entry =
     ''        '' @ quoted (fst entry) @ '': ['' @ join_with '', '' (map quoted (snd entry))
       @ ''],'' @ [CHR 0x0A]"

text \<open>
  The two things the loop over \<open>target.module_dependencies\<close> collects, for the entries
  in the order the loop visits them: the lines of the block and the modules whose file
  name breaks the convention.
\<close>

definition invalid_modules_of :: "module_table \<Rightarrow> dep_table \<Rightarrow> string list" where
  "invalid_modules_of table visited =
     concat (map (\<lambda>(module_name, ds).
                    case map_of table module_name of
                      None \<Rightarrow> []
                    | Some info \<Rightarrow>
                        if \<not> m_filename_valid info
                        then [module_name @ expected_intro @ m_expected_filename info @ '')'']
                        else [])
                 visited)"

definition new_module_deps :: "library \<Rightarrow> module_table \<Rightarrow> dep_table \<Rightarrow> string" where
  "new_module_deps lib table target_deps =
     (let visited = library_order lib target_deps;
          invalid_modules = invalid_modules_of table visited
      in ''module_dependencies = {'' @ [CHR 0x0A] @ concat (map dep_line visited) @ ''    }''
           @ (if invalid_modules \<noteq> [] then warning_intro @ join_with '', '' invalid_modules
              else [])
           @ '','')"

text \<open>
  The search for the top-level comma that ends the \<open>module_interfaces\<close> field, from the
  character after its \<open>=\<close>.
\<close>

fun field_end :: "string \<Rightarrow> nat \<Rightarrow> int \<Rightarrow> nat option" where
  "field_end [] line_pos depth = None"
| "field_end (c # cs) line_pos depth =
     (if c = CHR ''['' \<or> c = CHR ''('' then field_end cs (Suc line_pos) (depth + 1)
      else if c = CHR '']'' \<or> c = CHR '')'' then field_end cs (Suc line_pos) (depth - 1)
      else if c = CHR '','' \<and> depth = 0 then Some line_pos
      else field_end cs (Suc line_pos) depth)"

text \<open>
  The text of the pattern that locates a target, as the source concatenates it: an
  opening parenthesis, the target's type, the middle part (closing parenthesis, optional
  white space, an escaped opening parenthesis, optional white space, \<open>name\<close>, optional
  white space, \<open>=\<close>, optional white space, an escaped double quote), the target's name
  and a double quote.  \<open>CHR 0x5C\<close> is the backslash.
\<close>

definition target_pattern :: "string \<Rightarrow> string \<Rightarrow> string" where
  "target_pattern ttype target_name =
     ''('' @ ttype @ '')'' @ [CHR 0x5C] @ ''s*'' @ [CHR 0x5C] @ ''('' @ [CHR 0x5C] @ ''s*name''
       @ [CHR 0x5C] @ ''s*='' @ [CHR 0x5C] @ ''s*'' @ [CHR 0x5C, CHR 0x22] @ target_name
       @ [CHR 0x22]"

text \<open>The edit of one target's block, given the block's text.\<close>

definition patch_target :: "string \<Rightarrow> string \<Rightarrow> string option" where
  "patch_target target_content new_deps =
     (case regex_search existing_deps_regex target_content of
        Some found \<Rightarrow> Some (regex_replace target_content existing_deps_regex new_deps)
      | None \<Rightarrow>
          (case find_str target_content ''module_interfaces'' 0 of
             None \<Rightarrow> None
           | Some interfaces_pos \<Rightarrow>
               (case find_str target_content ''='' interfaces_pos of
                  None \<Rightarrow> None
                | Some equals_pos \<Rightarrow>
                    (case field_end (drop (equals_pos + 1) target_content) (equals_pos + 1) 0 of
                       None \<Rightarrow> None
                     | Some line_pos \<Rightarrow>
                         (let interfaces_line =
                                substr target_content interfaces_pos (line_pos - interfaces_pos + 1)
                          in Some (replace_range target_content interfaces_pos
                                     (line_pos - interfaces_pos + 1)
                                     (interfaces_line @ [CHR 0x0A] @ ''    '' @ new_deps)))))))"

text \<open>One iteration of the loop over the targets, on the text as edited so far.\<close>

definition update_target ::
    "library \<Rightarrow> module_table \<Rightarrow> string \<times> BuildTarget \<Rightarrow> string \<Rightarrow> failure + string" where
  "update_target lib table entry content =
     (let target_name = fst entry; target = snd entry
      in if t_module_dependencies target = [] then Inr content
         else
           (case lib_regex lib (target_pattern (t_type target) target_name) of
              None \<Rightarrow> Inl RegexError
            | Some target_search \<Rightarrow>
                (case target_search content of
                   None \<Rightarrow> Inr content
                 | Some start_pos \<Rightarrow>
                     (let scan = paren_scan (drop start_pos content) start_pos 0 False
                      in if snd scan = 0 then
                           (case patch_target (substr content start_pos (fst scan - start_pos + 1))
                                   (new_module_deps lib table (t_module_dependencies target)) of
                              None \<Rightarrow> Inr content
                            | Some new_target_content \<Rightarrow>
                                Inr (replace_range content start_pos (fst scan - start_pos + 1)
                                       new_target_content))
                         else Inr content))))"

fun update_targets ::
    "library \<Rightarrow> module_table \<Rightarrow> (string \<times> BuildTarget) list \<Rightarrow> string \<Rightarrow> failure + string" where
  "update_targets lib table [] content = Inr content"
| "update_targets lib table (entry # rest) content =
     (case update_target lib table entry content of
        Inl err \<Rightarrow> Inl err
      | Inr content' \<Rightarrow> update_targets lib table rest content')"

text \<open>
  The text \<open>updateBuildFile\<close> has computed when its loop over \<open>build_targets\<close> ends:
  the edits of the targets, in the order the loop visits them, applied to one copy of the
  original content.
\<close>

definition patched_text :: "library \<Rightarrow> ModuleScanner \<Rightarrow> string \<Rightarrow> failure + string" where
  "patched_text lib st original_content =
     update_targets lib (modules st) (library_order lib (build_targets st)) original_content"

text \<open>
  \<open>updateBuildFile\<close> returns what it writes to the descriptor file: \<open>Some text\<close>, or
  \<open>None\<close> when it writes nothing.
\<close>

definition updateBuildFile ::
    "library \<Rightarrow> filesystem \<Rightarrow> string \<Rightarrow> ModuleScanner \<Rightarrow> failure + string option" where
  "updateBuildFile lib fs build_file_path st =
     (case fs_read fs build_file_path of
        None \<Rightarrow> Inr None
      | Some original_content \<Rightarrow>
          (case patched_text lib st original_content of
             Inl err \<Rightarrow> Inl err
           | Inr content \<Rightarrow>
               if content \<noteq> original_content then
                 (if fs_writable fs build_file_path then Inr (Some content) else Inr None)
               else Inr None))"

section \<open>The program\<close>

datatype outcome = Exit nat | Crashed failure

text \<open>The two-step search for the descriptor file.\<close>

definition find_build_file :: "filesystem \<Rightarrow> string \<Rightarrow> string option" where
  "find_build_file fs project_root =
     (let build_file_path = path_append (path_append project_root ''src'') ''BUILD''
      in if fs_exists fs build_file_path then Some build_file_path
         else if fs_exists fs (path_append project_root ''BUILD'')
         then Some (path_append project_root ''BUILD'')
         else None)"

text \<open>Steps 1 to 3 of \<open>main\<close>: the scanner as \<open>updateBuildFile\<close> finds it.\<close>

definition scanner_state ::
    "filesystem \<Rightarrow> nat \<Rightarrow> string \<Rightarrow> string \<Rightarrow> failure + ModuleScanner" where
  "scanner_state fs hw project_root build_file_path =
     (case parseBuildFile fs build_file_path new_scanner of
        Inl err \<Rightarrow> Inl err
      | Inr st1 \<Rightarrow>
          (case scanProjectModules fs hw project_root st1 of
             Inl err \<Rightarrow> Inl err
           | Inr st2 \<Rightarrow> Inr (calculateTargetDependencies fs project_root st2)))"

definition run_scanner ::
    "library \<Rightarrow> filesystem \<Rightarrow> nat \<Rightarrow> string \<Rightarrow> string \<Rightarrow> failure + string option" where
  "run_scanner lib fs hw project_root build_file_path =
     (case scanner_state fs hw project_root build_file_path of
        Inl err \<Rightarrow> Inl err
      | Inr st \<Rightarrow> updateBuildFile lib fs build_file_path st)"

text \<open>
  \<open>main\<close> on the arguments after the program name: the exit code (or the crash) and the
  text written to the descriptor file, if any.
\<close>

definition main ::
    "library \<Rightarrow> filesystem \<Rightarrow> nat \<Rightarrow> string list \<Rightarrow> outcome \<times> string option" where
  "main lib fs hw args =
     (case args of
        [] \<Rightarrow> (Exit 1, None)
      | project_root # _ \<Rightarrow>
          if \<not> fs_exists fs project_root then (Exit 1, None)
          else
            (case find_build_file fs project_root of
               None \<Rightarrow> (Exit 1, None)
             | Some build_file_path \<Rightarrow>
                 (case run_scanner lib fs hw project_root build_file_path of
                    Inl err \<Rightarrow> (Crashed err, None)
                  | Inr written \<Rightarrow> (Exit 0, written))))"

text \<open>The file system after a run that wrote \<open>written\<close> to \<open>path\<close>.\<close>

definition after_write :: "filesystem \<Rightarrow> string \<Rightarrow> string option \<Rightarrow> filesystem" where
  "after_write fs path written =
     (case written of
        None \<Rightarrow> fs
      | Some text \<Rightarrow> fs\<lparr>fs_read := (fs_read fs)(path \<mapsto> text)\<rparr>)"

section \<open>Notions the claims are stated with\<close>

text \<open>The entries some directory iterator of the snapshot enumerates.\<close>

definition enumerated :: "filesystem \<Rightarrow> dir_entry set" where
  "enumerated fs =
     {entry. \<exists>dir entries.
        (fs_directory_iterator fs dir = Some entries
         \<or> fs_recursive_directory_iterator fs dir = Some entries)
        \<and> entry \<in> set entries}"

text \<open>
  The text of the \<open>module_interfaces\<close> field that \<open>parseBuildFile\<close> hands to
  \<open>parseModuleInterfaces\<close> for the target matched at \<open>m\<close> (position and captures of
  \<open>build_target_regex\<close>), if the target's block is balanced and has such a field.
\<close>

definition interfaces_field :: "string \<Rightarrow> nat \<times> string list \<Rightarrow> string option" where
  "interfaces_field content m =
     (let start_pos = fst m;
          scan = paren_scan (drop start_pos content) start_pos 0 False
      in if snd scan = 0 then
           (case regex_search module_interfaces_regex
                   (substr content start_pos (fst scan - start_pos + 1)) of
              None \<Rightarrow> None
            | Some (i, caps, rest) \<Rightarrow> Some (group1 caps))
         else None)"

text \<open>
  A target as read from the match \<open>m\<close> of the descriptor's text: it has the matched
  name; if its field is a glob, every path of its interface list is the path of an
  enumerated entry relative to \<open>base\<close>; if its field is a list, the interface list is the
  list's quoted \<open>.ixx\<close> names; without a field the interface list is empty.
\<close>

definition read_from_match ::
    "filesystem \<Rightarrow> string \<Rightarrow> string \<Rightarrow> nat \<times> string list \<Rightarrow> BuildTarget \<Rightarrow> bool" where
  "read_from_match fs base content m target \<longleftrightarrow>
     t_name target = group2 (snd m)
     \<and> (case interfaces_field content m of
          None \<Rightarrow> t_module_interfaces target = []
        | Some field \<Rightarrow>
            if contains field ''glob(''
            then \<forall>x \<in> set (t_module_interfaces target).
                   \<exists>entry \<in> enumerated fs. x = fs_relative fs (e_path entry) base
            else t_module_interfaces target = map group1 (regex_iter file_pattern field))"

text \<open>What a glob expansion yields when the order of the list is forgotten.\<close>

definition files_of :: "failure + BuildTarget \<Rightarrow> failure + string multiset" where
  "files_of result = map_sum id (\<lambda>target. mset (t_module_interfaces target)) result"

definition sorted_files_of :: "failure + BuildTarget \<Rightarrow> failure + string list" where
  "sorted_files_of result = map_sum id (\<lambda>target. sort (t_module_interfaces target)) result"

text \<open>
  The fatal set-up errors of \<open>main\<close>: no argument, a project root that does not exist,
  or no descriptor file at either of the two places.
\<close>

definition inputs_missing :: "filesystem \<Rightarrow> string list \<Rightarrow> bool" where
  "inputs_missing fs args =
     (case args of
        [] \<Rightarrow> True
      | project_root # _ \<Rightarrow>
          \<not> fs_exists fs project_root
          \<or> (\<not> fs_exists fs (path_append (path_append project_root ''src'') ''BUILD'')
             \<and> \<not> fs_exists fs (path_append project_root ''BUILD'')))"

section \<open>Example snapshots\<close>

text \<open>
  \<open>std::filesystem::relative\<close> for a path below the base, in a tree without \<open>.\<close>, \<open>..\<close>
  and symbolic links: the path with the base and one separator removed.
\<close>

definition relative_below :: "string \<Rightarrow> string \<Rightarrow> string" where
  "relative_below p base = (if starts_with p (base @ ''/'') then drop (length base + 1) p else p)"

definition regular :: "string \<Rightarrow> dir_entry" where
  "regular p = \<lparr>e_path = p, e_is_regular_file = True\<rparr>"

definition directory :: "string \<Rightarrow> dir_entry" where
  "directory p = \<lparr>e_path = p, e_is_regular_file = False\<rparr>"

text \<open>
  A project \<open>r\<close> with the descriptor \<open>r/src/BUILD\<close> and one interface file \<open>r/src/x.ixx\<close>
  that declares module \<open>m\<close> (so its name breaks the filename convention) and imports \<open>a\<close>.
\<close>

definition misnamed_build :: string where
  "misnamed_build =
     ''cc_module_library('' @ [CHR 0x0A]
       @ ''    name = '' @ quoted ''t'' @ '','' @ [CHR 0x0A]
       @ ''    module_interfaces = ['' @ quoted ''x.ixx'' @ ''],'' @ [CHR 0x0A]
       @ '')'' @ [CHR 0x0A]"

definition misnamed_fs :: filesystem where
  "misnamed_fs =
     \<lparr>fs_exists = (\<lambda>p. p \<in> set [''r'', ''r/src'', ''r/src/BUILD'', ''r/src/x.ixx'']),
      fs_read = map_of [(''r/src/BUILD'', misnamed_build),
                        (''r/src/x.ixx'', ''export module m;import a;'')],
      fs_writable = (\<lambda>p. True),
      fs_directory_iterator =
        map_of [(''r'', [directory ''r/src'']),
                (''r/src'', [regular ''r/src/BUILD'', regular ''r/src/x.ixx''])],
      fs_recursive_directory_iterator =
        map_of [(''r'', [directory ''r/src'', regular ''r/src/BUILD'', regular ''r/src/x.ixx'']),
                (''r/src'', [regular ''r/src/BUILD'', regular ''r/src/x.ixx''])],
      fs_relative = relative_below\<rparr>"

text \<open>The same project with a descriptor file that exists and cannot be opened.\<close>

definition unreadable_fs :: filesystem where
  "unreadable_fs = misnamed_fs\<lparr>fs_read := (fs_read misnamed_fs)(''r/src/BUILD'' := None)\<rparr>"

text \<open>
  A project whose only interface file \<open>r/src/p-a.ixx\<close> declares the partition \<open>p:a\<close> and
  imports \<open>:a\<close>.
\<close>

definition self_import_fs :: filesystem where
  "self_import_fs =
     \<lparr>fs_exists = (\<lambda>p. p \<in> set [''r'', ''r/src'', ''r/src/BUILD'', ''r/src/p-a.ixx'']),
      fs_read = map_of [(''r/src/BUILD'',
                         ''cc_module_library(name = '' @ quoted ''t'' @ '', module_interfaces = [''
                           @ quoted ''p-a.ixx'' @ ''],)''),
                        (''r/src/p-a.ixx'', ''export module p:a;'' @ [CHR 0x0A] @ ''import :a;'')],
      fs_writable = (\<lambda>p. True),
      fs_directory_iterator =
        map_of [(''r'', [directory ''r/src'']),
                (''r/src'', [regular ''r/src/BUILD'', regular ''r/src/p-a.ixx''])],
      fs_recursive_directory_iterator =
        map_of [(''r'', [directory ''r/src'', regular ''r/src/BUILD'', regular ''r/src/p-a.ixx'']),
                (''r/src'', [regular ''r/src/BUILD'', regular ''r/src/p-a.ixx''])],
      fs_relative = relative_below\<rparr>"

text \<open>
  A project whose descriptor \<open>r/src/BUILD\<close> names its interface files by a glob over the
  directory \<open>r/src/d\<close>, with a literal file name beside the glob expression.  The
  argument is the order in which the entries of \<open>r/src/d\<close> are enumerated.
\<close>

definition glob_build :: string where
  "glob_build =
     ''cc_module_library('' @ [CHR 0x0A]
       @ ''    name = '' @ quoted ''g'' @ '','' @ [CHR 0x0A]
       @ ''    module_interfaces = glob(['' @ quoted ''d/*.ixx'' @ '', '' @ quoted ''lit.ixx''
       @ '']),'' @ [CHR 0x0A]
       @ '')'' @ [CHR 0x0A]"

definition glob_fs :: "dir_entry list \<Rightarrow> filesystem" where
  "glob_fs d_entries =
     \<lparr>fs_exists = (\<lambda>p. p \<in> set [''r'', ''r/src'', ''r/src/BUILD'', ''r/src/lit.ixx'', ''r/src/d'',
                                  ''r/src/d/a.ixx'', ''r/src/d/b.ixx'']),
      fs_read = map_of [(''r/src/BUILD'', glob_build),
                        (''r/src/lit.ixx'', ''export module lit;''),
                        (''r/src/d/a.ixx'', ''export module a;''),
                        (''r/src/d/b.ixx'', ''export module b;'' @ [CHR 0x0A] @ ''import a;'')],
      fs_writable = (\<lambda>p. True),
      fs_directory_iterator =
        map_of [(''r'', [directory ''r/src'']),
                (''r/src'', [regular ''r/src/BUILD'', regular ''r/src/lit.ixx'', directory ''r/src/d'']),
                (''r/src/d'', d_entries)],
      fs_recursive_directory_iterator =
        map_of [(''r'', [directory ''r/src'', regular ''r/src/BUILD'', regular ''r/src/lit.ixx'',
                         directory ''r/src/d''] @ d_entries),
                (''r/src'', [regular ''r/src/BUILD'', regular ''r/src/lit.ixx'',
                             directory ''r/src/d''] @ d_entries),
                (''r/src/d'', d_entries)],
      fs_relative = relative_below\<rparr>"

definition a_then_b :: "dir_entry list" where
  "a_then_b = [regular ''r/src/d/a.ixx'', regular ''r/src/d/b.ixx'']"

definition b_then_a :: "dir_entry list" where
  "b_then_a = [regular ''r/src/d/b.ixx'', regular ''r/src/d/a.ixx'']"

text \<open>Two module tables: a parent with two partitions, and a partition with a bare import.\<close>

definition module_named :: "string \<Rightarrow> string list \<Rightarrow> string \<Rightarrow> ModuleInfo" where
  "module_named n imps path =
     \<lparr>m_name = n, m_imports = imps, m_file_path = path, m_filename_valid = True,
      m_expected_filename = filename path\<rparr>"

definition partition_table :: module_table where
  "partition_table =
     [(''p'', module_named ''p'' [] ''r/src/p.ixx''),
      (''p:b'', module_named ''p:b'' [] ''r/src/p-b.ixx''),
      (''p:a'', module_named ''p:a'' [] ''r/src/p-a.ixx'')]"

definition util_table :: module_table where
  "util_table =
     [(''p:a'', module_named ''p:a'' ['':util''] ''r/src/p-a.ixx''),
      (''p:util'', module_named ''p:util'' [] ''r/src/p-util.ixx'')]"

text \<open>
  The library as far as the examples use it.  The two patterns \<open>updateBuildFile\<close>
  builds on them, for the targets \<open>t\<close> and \<open>g\<close>, are translated by hand like the
  patterns written in the source; no other pattern is built on the examples.  Every
  \<open>std::unordered_map\<close> that is enumerated on them holds a single entry, so there is one
  order only.
\<close>

definition target_regex :: "string \<Rightarrow> string \<Rightarrow> rx list" where
  "target_regex ttype target_name =
     [Grp [Lit ttype], Star is_space, Lit ''('', Star is_space, Lit ''name'', Star is_space,
      Lit ''='', Star is_space, Lit [CHR 0x22], Lit target_name, Lit [CHR 0x22]]"

definition position_of :: "rx list \<Rightarrow> string \<Rightarrow> nat option" where
  "position_of re content = map_option fst (regex_search re content)"

definition example_library :: library where
  "example_library =
     \<lparr>lib_regex =
        (\<lambda>pattern.
           map_option position_of
             (map_of [(target_pattern ''cc_module_library'' ''t'',
                       target_regex ''cc_module_library'' ''t''),
                      (target_pattern ''cc_module_library'' ''g'',
                       target_regex ''cc_module_library'' ''g'')]
                     pattern)),
      lib_map_order = (\<lambda>keys. keys)\<rparr>"

definition empty_target :: BuildTarget where
  "empty_target =
     \<lparr>t_name = ''g'', t_type = ''cc_module_library'', t_module_interfaces = [],
      t_module_dependencies = []\<rparr>"

text \<open>The texts the runs on the first project write, and the scanner they patch from.\<close>

definition misnamed_block :: string where
  "misnamed_block =
     ''module_dependencies = {'' @ [CHR 0x0A]
       @ ''        '' @ quoted ''m'' @ '': ['' @ quoted ''a'' @ ''],'' @ [CHR 0x0A]
       @ ''    }''"

definition misnamed_warning :: string where
  "misnamed_warning = warning_intro @ ''m'' @ expected_intro @ ''m.ixx)''"

definition misnamed_head :: string where
  "misnamed_head =
     ''cc_module_library('' @ [CHR 0x0A]
       @ ''    name = '' @ quoted ''t'' @ '','' @ [CHR 0x0A]
       @ ''    module_interfaces = ['' @ quoted ''x.ixx'' @ ''],'' @ [CHR 0x0A]
       @ ''    ''"

definition first_run_text :: string where
  "first_run_text =
     misnamed_head @ misnamed_block @ misnamed_warning @ '','' @ [CHR 0x0A] @ '')'' @ [CHR 0x0A]"

definition second_run_text :: string where
  "second_run_text =
     misnamed_head @ misnamed_block @ misnamed_warning @ '','' @ tl misnamed_warning @ '',''
       @ [CHR 0x0A] @ '')'' @ [CHR 0x0A]"

definition misnamed_state :: ModuleScanner where
  "misnamed_state =
     \<lparr>modules = [(''m'', \<lparr>m_name = ''m'', m_imports = [''a''], m_file_path = ''r/src/x.ixx'',
                                m_filename_valid = False, m_expected_filename = ''m.ixx''\<rparr>)],
      module_deps = [(''m'', [''a''])],
      build_targets =
        [(''t'', \<lparr>t_name = ''t'', t_type = ''cc_module_library'',
                  t_module_interfaces = [''x.ixx''],
                  t_module_dependencies = [(''m'', [''a''])]\<rparr>)]\<rparr>"

text \<open>
  The glob project once the tool has run on it: the descriptor holds the dependency block
  of its target, and a further run computes the same text.
\<close>

definition synced_build :: string where
  "synced_build =
     ''cc_module_library('' @ [CHR 0x0A]
       @ ''    name = '' @ quoted ''g'' @ '','' @ [CHR 0x0A]
       @ ''    module_interfaces = glob(['' @ quoted ''d/*.ixx'' @ '', '' @ quoted ''lit.ixx''
       @ '']),'' @ [CHR 0x0A]
       @ ''    module_dependencies = {'' @ [CHR 0x0A]
       @ ''        '' @ quoted ''b'' @ '': ['' @ quoted ''a'' @ ''],'' @ [CHR 0x0A]
       @ ''    },'' @ [CHR 0x0A]
       @ '')'' @ [CHR 0x0A]"

definition synced_fs :: filesystem where
  "synced_fs = after_write (glob_fs a_then_b) ''r/src/BUILD'' (Some synced_build)"

definition synced_state :: ModuleScanner where
  "synced_state =
     \<lparr>modules =
        [(''lit'', \<lparr>m_name = ''lit'', m_imports = [], m_file_path = ''r/src/lit.ixx'',
                    m_filename_valid = True, m_expected_filename = ''lit.ixx''\<rparr>),
         (''a'', \<lparr>m_name = ''a'', m_imports = [], m_file_path = ''r/src/d/a.ixx'',
                  m_filename_valid = True, m_expected_filename = ''a.ixx''\<rparr>),
         (''b'', \<lparr>m_name = ''b'', m_imports = [''a''], m_file_path = ''r/src/d/b.ixx'',
                  m_filename_valid = True, m_expected_filename = ''b.ixx''\<rparr>)],
      module_deps = [(''b'', [''a''])],
      build_targets =
        [(''g'', \<lparr>t_name = ''g'', t_type = ''cc_module_library'',
                  t_module_interfaces = [''d/a.ixx'', ''d/b.ixx''],
                  t_module_dependencies = [(''b'', [''a''])]\<rparr>)]\<rparr>"

text \<open>The targets read from the glob project's descriptor, and two interface fields.\<close>

definition glob_parsed :: ModuleScanner where
  "glob_parsed =
     \<lparr>modules = [], module_deps = [],
      build_targets =
        [(''g'', \<lparr>t_name = ''g'', t_type = ''cc_module_library'',
                  t_module_interfaces = [''d/a.ixx'', ''d/b.ixx''],
                  t_module_dependencies = []\<rparr>)]\<rparr>"

definition glob_field :: string where
  "glob_field = ''glob(['' @ quoted ''d/*.ixx'' @ '', '' @ quoted ''lit.ixx'' @ ''])''"

definition list_field :: string where
  "list_field = ''['' @ quoted ''x.ixx'' @ '', '' @ quoted ''sub/y.ixx'' @ '']''"

section \<open>Code equations for the two large constants\<close>

lemma prefix_upto_take: "prefix_upto n s = take (nat n) s"
proof (induction s arbitrary: n)
  case Nil
  then show ?case by simp
next
  case (Cons c cs)
  show ?case
  proof (cases "n \<le> 0")
    case True
    then show ?thesis by simp
  next
    case False
    then have "nat n = Suc (nat (n - 1))" by simp
    with False show ?thesis by (simp add: Cons.IH)
  qed
qed

lemma read_prefix_code [code]: "read_prefix bytes = prefix_upto 8192 bytes"
  by (simp add: read_prefix_def MAX_READ_SIZE_def prefix_upto_take)

lemma cast_unsigned_int_code [code]: "cast_unsigned_int n = nat (int n mod 4294967296)"
  by (simp add: cast_unsigned_int_def nat_mod_as_int)

section \<open>The library's enumeration order\<close>

text \<open>
  A library that visits the keys in the order they were inserted enumerates a map with
  distinct keys as the list itself.
\<close>

lemma library_order_insertion:
  assumes "lib_map_order lib = (\<lambda>keys. keys)" and "distinct (map fst table)"
  shows "library_order lib table = table"
proof -
  have "concat (map (\<lambda>key. case map_of table key of None \<Rightarrow> [] | Some v \<Rightarrow> [(key, v)])
                    (map fst xs)) = xs"
    if "set xs \<subseteq> set table" for xs :: "(string \<times> 'a) list"
    using that
  proof (induction xs)
    case Nil
    then show ?case by simp
  next
    case (Cons x xs)
    obtain k v where x: "x = (k, v)" by (cases x)
    with Cons.prems have "(k, v) \<in> set table" by simp
    with assms(2) have "map_of table k = Some v" by simp
    with Cons x show ?case by simp
  qed
  then show ?thesis
    by (simp add: library_order_def assms(1))
qed

text \<open>
  The order of the lines in a dependency block is the library's: a library that visits
  the later key first writes its line first.
\<close>

lemma block_lines_in_library_order:
  "new_module_deps \<lparr>lib_regex = (\<lambda>pattern. None), lib_map_order = rev\<rparr> []
     [(''m1'', [''a'']), (''m2'', [''b''])]
   = ''module_dependencies = {'' @ [CHR 0x0A]
       @ ''        '' @ quoted ''m2'' @ '': ['' @ quoted ''b'' @ ''],'' @ [CHR 0x0A]
       @ ''        '' @ quoted ''m1'' @ '': ['' @ quoted ''a'' @ ''],'' @ [CHR 0x0A]
       @ ''    },''"
  by code_simp

section \<open>The dependency resolver\<close>

lemma distinct_remdups_adj_sorted:
  "sorted (xs :: 'a::linorder list) \<Longrightarrow> distinct (remdups_adj xs)"
proof (induction xs rule: remdups_adj.induct)
  case (3 x y xs)
  then show ?case by (cases "x = y") auto
qed simp_all

lemma sort_unique_props:
  "sorted (sort_unique xs)" "distinct (sort_unique xs)" "set (sort_unique xs) = set xs"
  by (simp_all add: sort_unique_def distinct_remdups_adj_sorted)

lemma map_of_process_module:
  "map_of (process_module M e d) k =
     (if fst e = k \<and> clean_imports M (fst e) (snd e) \<noteq> []
      then Some (sort_unique (clean_imports M (fst e) (snd e))) else map_of d k)"
  by (simp add: process_module_def Let_def update_conv')

lemma map_of_fold_process_other:
  "n \<notin> fst ` set ms \<Longrightarrow> map_of (fold (process_module M) ms d) n = map_of d n"
  by (induction ms arbitrary: d) (auto simp: map_of_process_module)

lemma map_of_fold_process:
  "distinct (map fst ms) \<Longrightarrow> (n, info) \<in> set ms \<Longrightarrow>
   map_of (fold (process_module M) ms d) n =
     (if clean_imports M n info \<noteq> [] then Some (sort_unique (clean_imports M n info))
      else map_of d n)"
proof (induction ms arbitrary: d)
  case Nil
  then show ?case by simp
next
  case (Cons e ms)
  show ?case
  proof (cases "e = (n, info)")
    case True
    with Cons.prems have "n \<notin> fst ` set ms" by auto
    then show ?thesis
      using True by (simp add: map_of_fold_process_other map_of_process_module)
  next
    case False
    with Cons.prems have in_ms: "(n, info) \<in> set ms" and d: "distinct (map fst ms)"
      and ne: "fst e \<noteq> n" by (auto simp: rev_image_eqI)
    show ?thesis
      using Cons.IH [OF d in_ms] ne by (simp add: map_of_process_module)
  qed
qed

lemma map_of_processModuleDependencies:
  "distinct (map fst table) \<Longrightarrow> (n, info) \<in> set table \<Longrightarrow>
   map_of (processModuleDependencies table []) n =
     (if clean_imports table n info \<noteq> [] then Some (sort_unique (clean_imports table n info))
      else None)"
  by (simp add: processModuleDependencies_def map_of_fold_process)

lemma set_clean_explicit:
  "set (clean_explicit n imps) =
     (\<lambda>imp. if starts_with imp '':'' then main_module_of n @ imp else imp) `
       {imp \<in> set imps. imp \<noteq> [] \<and> imp \<noteq> n}"
  by (induction imps) auto

lemma set_partitions_of:
  "CHR '':'' \<notin> set p \<Longrightarrow>
   set (partitions_of table p) = {r \<in> fst ` set table. starts_with r (p @ '':'')}"
  by (auto simp: partitions_of_def)

lemma starts_with_colon: "starts_with d '':'' \<longleftrightarrow> (\<exists>r. d = CHR '':'' # r)"
  by (cases d) (auto simp: starts_with_def)

section \<open>The chunks of the parallel scan\<close>

lemma take_drop_append:
  "take a (drop s xs) @ take n (drop (s + a) xs) = take (a + n) (drop s xs)"
  by (metis take_add drop_drop add.commute)

lemma chunk_ranges_concat:
  "concat (map (\<lambda>b. take (snd b - fst b) (drop (fst b) xs)) (chunk_ranges k i start q r)) =
     take (k * q + (min r (i + k) - min r i)) (drop start xs)"
proof (induction k arbitrary: i start)
  case 0
  then show ?case by simp
next
  case (Suc k)
  let ?b = "if i < r then 1 else 0 :: nat"
  have slice: "take (q + ?b) (drop start xs) @ take n (drop (start + q + ?b) xs) =
               take (q + ?b + n) (drop start xs)" for n
    using take_drop_append [of "q + ?b" start xs n] by (simp only: add.assoc)
  have arith: "q + ?b + (k * q + (min r (Suc i + k) - min r (Suc i))) =
               Suc k * q + (min r (i + Suc k) - min r i)"
    by (auto simp: min_def)
  show ?case
    using Suc.IH [of "Suc i" "start + q + ?b"] slice arith
    by (simp add: Let_def del: mult_Suc)
qed

lemma chunk_ranges_cover:
  assumes "0 < n"
  shows "concat (map (\<lambda>b. take (snd b - fst b) (drop (fst b) xs))
           (chunk_ranges n 0 0 (length xs div n) (length xs mod n))) = xs"
proof -
  have "min (length xs mod n) n = length xs mod n"
    using assms by (simp add: min_def less_imp_le)
  then have "n * (length xs div n) + (min (length xs mod n) (0 + n) - min (length xs mod n) 0)
             = length xs"
    by simp
  then show ?thesis
    by (simp add: chunk_ranges_concat)
qed

lemma fold_merge_results:
  "fold merge_results rss table = merge_results (concat rss) table"
  by (induction rss arbitrary: table) (simp_all add: merge_results_def)

lemma merge_results_sequential:
  "merge_results (filter (\<lambda>info. m_name info \<noteq> []) (map (extractModuleInfo fs) files)) table =
   sequential_scan fs files table"
  unfolding merge_results_def sequential_scan_def
  by (induction files arbitrary: table) (simp_all add: Let_def)

lemma scan_files_sequential:
  assumes "0 < n"
  shows "scan_files fs n files table = sequential_scan fs files table"
proof -
  let ?ranges = "chunk_ranges n 0 0 (length files div n) (length files mod n)"
  let ?slice = "\<lambda>b. take (snd b - fst b) (drop (fst b) files)"
  have "concat (map (worker fs files) ?ranges) =
        filter (\<lambda>info. m_name info \<noteq> []) (map (extractModuleInfo fs) (concat (map ?slice ?ranges)))"
    by (simp add: worker_def [abs_def] map_concat filter_concat comp_def)
  then have "concat (map (worker fs files) ?ranges) =
        filter (\<lambda>info. m_name info \<noteq> []) (map (extractModuleInfo fs) files)"
    using chunk_ranges_cover [OF assms, of files] by simp
  then show ?thesis
    by (simp add: scan_files_def fold_merge_results merge_results_sequential)
qed

section \<open>Glob expansion\<close>

lemma glob_matches_enumerated:
  assumes "fs_directory_iterator fs dir = Some entries
           \<or> fs_recursive_directory_iterator fs dir = Some entries"
    and "x \<in> set (glob_matches fs keep entries base)"
  shows "\<exists>entry \<in> enumerated fs. x = fs_relative fs (e_path entry) base"
proof -
  from assms(2) obtain entry where "entry \<in> set entries"
    and x: "x = fs_relative fs (e_path entry) base"
    by (auto simp: glob_matches_def)
  with assms(1) have "entry \<in> enumerated fs"
    unfolding enumerated_def by blast
  with x show ?thesis by blast
qed

lemma processGlobExpression_cases:
  obtains (unchanged) "processGlobExpression fs glob_expr target base = Inr target"
  | (failed) "processGlobExpression fs glob_expr target base = Inl FilesystemError"
  | (single) dir entries where "fs_directory_iterator fs dir = Some entries"
      "processGlobExpression fs glob_expr target base =
         Inr (target\<lparr>t_module_interfaces := t_module_interfaces target
                @ glob_matches fs (\<lambda>entry. extension (e_path entry) = ''.ixx'') entries base\<rparr>)"
  | (recursive) dir entries where "fs_recursive_directory_iterator fs dir = Some entries"
      "processGlobExpression fs glob_expr target base =
         Inr (target\<lparr>t_module_interfaces := t_module_interfaces target
                @ glob_matches fs is_ixx_file entries base\<rparr>)"
proof (cases "ends_with glob_expr ''**/*.ixx''")
  case True
  let ?dir = "path_append base (strip_slash (take (length glob_expr - 8) glob_expr))"
  show ?thesis
  proof (cases "fs_exists fs ?dir")
    case False
    with True have "processGlobExpression fs glob_expr target base = Inr target"
      by (simp add: processGlobExpression_def)
    then show ?thesis by (rule unchanged)
  next
    case ex: True
    show ?thesis
    proof (cases "fs_recursive_directory_iterator fs ?dir")
      case None
      with True ex have "processGlobExpression fs glob_expr target base = Inl FilesystemError"
        by (simp add: processGlobExpression_def)
      then show ?thesis by (rule failed)
    next
      case (Some entries)
      with True ex have "processGlobExpression fs glob_expr target base =
         Inr (target\<lparr>t_module_interfaces := t_module_interfaces target
                @ glob_matches fs is_ixx_file entries base\<rparr>)"
        by (simp add: processGlobExpression_def)
      with Some show ?thesis by (rule recursive)
    qed
  qed
next
  case not_rec: False
  show ?thesis
  proof (cases "ends_with glob_expr ''*.ixx''")
    case False
    with not_rec have "processGlobExpression fs glob_expr target base = Inr target"
      by (simp add: processGlobExpression_def)
    then show ?thesis by (rule unchanged)
  next
    case True
    let ?dir = "path_append base (strip_slash (take (length glob_expr - 5) glob_expr))"
    show ?thesis
    proof (cases "fs_exists fs ?dir")
      case False
      with True not_rec have "processGlobExpression fs glob_expr target base = Inr target"
        by (simp add: processGlobExpression_def)
      then show ?thesis by (rule unchanged)
    next
      case ex: True
      show ?thesis
      proof (cases "fs_directory_iterator fs ?dir")
        case None
        with True not_rec ex
        have "processGlobExpression fs glob_expr target base = Inl FilesystemError"
          by (simp add: processGlobExpression_def)
        then show ?thesis by (rule failed)
      next
        case (Some entries)
        with True not_rec ex have "processGlobExpression fs glob_expr target base =
           Inr (target\<lparr>t_module_interfaces := t_module_interfaces target
                  @ glob_matches fs (\<lambda>entry. extension (e_path entry) = ''.ixx'') entries base\<rparr>)"
          by (simp add: processGlobExpression_def)
        with Some show ?thesis by (rule single)
      qed
    qed
  qed
qed

lemma processGlobExpression_added:
  assumes "processGlobExpression fs glob_expr target base = Inr target'"
  shows "\<exists>added. target' = target\<lparr>t_module_interfaces := t_module_interfaces target @ added\<rparr>
           \<and> (\<forall>x \<in> set added. \<exists>entry \<in> enumerated fs. x = fs_relative fs (e_path entry) base)"
proof (cases rule: processGlobExpression_cases
    [where fs = fs and glob_expr = glob_expr and target = target and base = base])
  case unchanged
  with assms have "target' = target" by simp
  then show ?thesis by (intro exI [of _ "[]"]) simp
next
  case failed
  with assms show ?thesis by simp
next
  case (single dir entries)
  let ?added = "glob_matches fs (\<lambda>entry. extension (e_path entry) = ''.ixx'') entries base"
  from single(2) assms
  have "target' = target\<lparr>t_module_interfaces := t_module_interfaces target @ ?added\<rparr>"
    by simp
  moreover have "\<forall>x \<in> set ?added. \<exists>entry \<in> enumerated fs. x = fs_relative fs (e_path entry) base"
    using single(1) glob_matches_enumerated by blast
  ultimately show ?thesis by blast
next
  case (recursive dir entries)
  let ?added = "glob_matches fs is_ixx_file entries base"
  from recursive(2) assms
  have "target' = target\<lparr>t_module_interfaces := t_module_interfaces target @ ?added\<rparr>"
    by simp
  moreover have "\<forall>x \<in> set ?added. \<exists>entry \<in> enumerated fs. x = fs_relative fs (e_path entry) base"
    using recursive(1) glob_matches_enumerated by blast
  ultimately show ?thesis by blast
qed

lemma process_globs_added:
  "process_globs fs globs target base = Inr target' \<Longrightarrow>
   \<exists>added. target' = target\<lparr>t_module_interfaces := t_module_interfaces target @ added\<rparr>
     \<and> (\<forall>x \<in> set added. \<exists>entry \<in> enumerated fs. x = fs_relative fs (e_path entry) base)"
proof (induction globs arbitrary: target)
  case Nil
  then show ?case by (intro exI [of _ "[]"]) simp
next
  case (Cons g globs)
  from Cons.prems obtain mid where first: "processGlobExpression fs g target base = Inr mid"
    and rest: "process_globs fs globs mid base = Inr target'"
    by (auto split: sum.splits)
  from processGlobExpression_added [OF first] obtain a1 where
    mid: "mid = target\<lparr>t_module_interfaces := t_module_interfaces target @ a1\<rparr>"
    and a1: "\<forall>x \<in> set a1. \<exists>entry \<in> enumerated fs. x = fs_relative fs (e_path entry) base"
    by blast
  from Cons.IH [OF rest] obtain a2 where
    fin: "target' = mid\<lparr>t_module_interfaces := t_module_interfaces mid @ a2\<rparr>"
    and a2: "\<forall>x \<in> set a2. \<exists>entry \<in> enumerated fs. x = fs_relative fs (e_path entry) base"
    by blast
  have "target' = target\<lparr>t_module_interfaces := t_module_interfaces target @ (a1 @ a2)\<rparr>"
    using mid fin by simp
  moreover have "\<forall>x \<in> set (a1 @ a2). \<exists>entry \<in> enumerated fs. x = fs_relative fs (e_path entry) base"
    using a1 a2 by auto
  ultimately show ?case by blast
qed

lemma parseModuleInterfaces_glob_added:
  assumes "contains interfaces_str ''glob(''"
    and "parseModuleInterfaces fs interfaces_str target base = Inr target'"
  shows "\<exists>added. target' = target\<lparr>t_module_interfaces := t_module_interfaces target @ added\<rparr>
           \<and> (\<forall>x \<in> set added. \<exists>entry \<in> enumerated fs. x = fs_relative fs (e_path entry) base)"
proof (cases "regex_search glob_pattern interfaces_str")
  case None
  with assms show ?thesis
    by (intro exI [of _ "[]"]) (simp add: parseModuleInterfaces_def)
next
  case (Some m)
  with assms show ?thesis
    by (cases m) (auto simp: parseModuleInterfaces_def intro: process_globs_added)
qed

lemma parseModuleInterfaces_list:
  assumes "\<not> contains interfaces_str ''glob(''"
    and "parseModuleInterfaces fs interfaces_str target base = Inr target'"
  shows "target' = target\<lparr>t_module_interfaces := t_module_interfaces target
           @ map group1 (regex_iter file_pattern interfaces_str)\<rparr>"
  using assms by (simp add: parseModuleInterfaces_def)

lemma set_update_cases:
  "(a, b) \<in> set (AList.update k v al) \<Longrightarrow> (a, b) = (k, v) \<or> (a, b) \<in> set al"
proof (induction al)
  case Nil
  then show ?case by simp
next
  case (Cons p ps)
  show ?case
  proof (cases "fst p = k")
    case True
    with Cons.prems show ?thesis by auto
  next
    case False
    with Cons.prems have "(a, b) = p \<or> (a, b) \<in> set (AList.update k v ps)" by simp
    with Cons.IH show ?thesis by auto
  qed
qed

lemma mset_glob_matches:
  "mset (glob_matches fs keep entries base) =
     image_mset (\<lambda>entry. fs_relative fs (e_path entry) base) (filter_mset keep (mset entries))"
  by (simp add: glob_matches_def)

lemma sort_cong_mset: "mset xs = mset ys \<Longrightarrow> sort xs = sort (ys :: 'a::linorder list)"
  by (metis mset_sort properties_for_sort sorted_sort)

section \<open>The targets read from the descriptor\<close>

lemma parse_target_cases:
  assumes "parse_target fs b content m st = Inr st'"
  shows "st' = st
         \<or> (\<exists>t. st' = st\<lparr>build_targets := AList.update (t_name t) t (build_targets st)\<rparr>
                \<and> read_from_match fs (parent_path b) content m t)"
proof -
  let ?target = "\<lparr>t_name = group2 (snd m), t_type = group1 (snd m),
                   t_module_interfaces = [], t_module_dependencies = []\<rparr>"
  let ?scan = "paren_scan (drop (fst m) content) (fst m) 0 False"
  show ?thesis
  proof (cases "snd ?scan = 0")
    case False
    with assms have "st' = st" by (simp add: parse_target_def Let_def)
    then show ?thesis by simp
  next
    case True
    let ?tc = "substr content (fst m) (fst ?scan - fst m + 1)"
    define parsed where "parsed =
      (case regex_search module_interfaces_regex ?tc of
         None \<Rightarrow> Inr ?target
       | Some (i, caps, rest) \<Rightarrow>
           parseModuleInterfaces fs (group1 caps) ?target (parent_path b))"
    from True assms
    have eq: "(case parsed of Inl err \<Rightarrow> Inl err
               | Inr t' \<Rightarrow> Inr (st\<lparr>build_targets :=
                   AList.update (t_name t') t' (build_targets st)\<rparr>)) = Inr st'"
      by (simp add: parse_target_def Let_def parsed_def)
    then obtain t' where p: "parsed = Inr t'"
      and st': "st' = st\<lparr>build_targets := AList.update (t_name t') t' (build_targets st)\<rparr>"
      by (cases parsed) auto
    have field: "interfaces_field content m =
        (case regex_search module_interfaces_regex ?tc of
           None \<Rightarrow> None
         | Some (i, caps, rest) \<Rightarrow> Some (group1 caps))"
      using True by (simp add: interfaces_field_def Let_def)
    have "read_from_match fs (parent_path b) content m t'"
    proof (cases "regex_search module_interfaces_regex ?tc")
      case None
      with p have "t' = ?target" by (simp add: parsed_def)
      with None field show ?thesis by (simp add: read_from_match_def)
    next
      case (Some r)
      obtain i caps rest where r: "r = (i, caps, rest)" by (cases r)
      with Some p
      have pm: "parseModuleInterfaces fs (group1 caps) ?target (parent_path b) = Inr t'"
        by (simp add: parsed_def)
      from Some r field have f: "interfaces_field content m = Some (group1 caps)"
        by simp
      show ?thesis
      proof (cases "contains (group1 caps) ''glob(''")
        case True
        from parseModuleInterfaces_glob_added [OF True pm] obtain added where
          t': "t' = ?target\<lparr>t_module_interfaces := t_module_interfaces ?target @ added\<rparr>"
          and added: "\<forall>x \<in> set added. \<exists>entry \<in> enumerated fs.
                        x = fs_relative fs (e_path entry) (parent_path b)"
          by blast
        from t' have "t_name t' = group2 (snd m)" and "t_module_interfaces t' = added"
          by simp_all
        with added f True show ?thesis by (simp add: read_from_match_def)
      next
        case False
        let ?lits = "map group1 (regex_iter file_pattern (group1 caps))"
        from parseModuleInterfaces_list [OF False pm]
        have "t' = ?target\<lparr>t_module_interfaces := t_module_interfaces ?target @ ?lits\<rparr>" .
        then have "t_name t' = group2 (snd m)" and "t_module_interfaces t' = ?lits"
          by simp_all
        with f False show ?thesis by (simp add: read_from_match_def)
      qed
    qed
    with st' show ?thesis by blast
  qed
qed

lemma parse_targets_origin:
  "parse_targets fs b content ms st = Inr st' \<Longrightarrow>
   (n, t) \<in> set (build_targets st') \<Longrightarrow>
   (n, t) \<in> set (build_targets st)
   \<or> (\<exists>m \<in> set ms. n = t_name t \<and> read_from_match fs (parent_path b) content m t)"
proof (induction ms arbitrary: st)
  case Nil
  then show ?case by simp
next
  case (Cons m ms)
  from Cons.prems(1) obtain mid where first: "parse_target fs b content m st = Inr mid"
    and rest: "parse_targets fs b content ms mid = Inr st'"
    by (auto split: sum.splits)
  from Cons.IH [OF rest Cons.prems(2)]
  consider (mid) "(n, t) \<in> set (build_targets mid)"
    | (later) "\<exists>m \<in> set ms. n = t_name t \<and> read_from_match fs (parent_path b) content m t"
    by blast
  then show ?case
  proof cases
    case later
    then show ?thesis by auto
  next
    case mid
    from parse_target_cases [OF first]
    consider (same) "mid = st"
      | (stored) t0 where
          "mid = st\<lparr>build_targets := AList.update (t_name t0) t0 (build_targets st)\<rparr>"
          "read_from_match fs (parent_path b) content m t0"
      by blast
    then show ?thesis
    proof cases
      case same
      with mid show ?thesis by simp
    next
      case stored
      from mid stored(1)
      have "(n, t) \<in> set (AList.update (t_name t0) t0 (build_targets st))" by simp
      then have "(n, t) = (t_name t0, t0) \<or> (n, t) \<in> set (build_targets st)"
        by (rule set_update_cases)
      then show ?thesis
      proof
        assume "(n, t) = (t_name t0, t0)"
        with stored(2) have "n = t_name t \<and> read_from_match fs (parent_path b) content m t"
          by simp
        then show ?thesis by simp
      next
        assume "(n, t) \<in> set (build_targets st)"
        then show ?thesis by simp
      qed
    qed
  qed
qed

lemma parseBuildFile_origin:
  assumes "parseBuildFile fs b new_scanner = Inr st"
    and "(n, t) \<in> set (build_targets st)"
  shows "\<exists>content m. fs_read fs b = Some content
           \<and> m \<in> set (regex_iter_pos build_target_regex content 0)
           \<and> n = t_name t \<and> read_from_match fs (parent_path b) content m t"
proof (cases "fs_read fs b")
  case None
  with assms(1) have "st = new_scanner" by (simp add: parseBuildFile_def)
  with assms(2) show ?thesis by (simp add: new_scanner_def)
next
  case (Some content)
  with assms(1)
  have "parse_targets fs b content (regex_iter_pos build_target_regex content 0)
          new_scanner = Inr st"
    by (simp add: parseBuildFile_def)
  from parse_targets_origin [OF this assms(2)]
  have "\<exists>m \<in> set (regex_iter_pos build_target_regex content 0).
          n = t_name t \<and> read_from_match fs (parent_path b) content m t"
    by (simp add: new_scanner_def)
  with Some show ?thesis by blast
qed

section \<open>Claims about the dependency resolver\<close>

text \<open>
  C1.  The dependency list stored for a module should never contain the module's own
  name.  The resolver compares an import with the module's name before it qualifies a
  bare partition import, so the partition \<open>p:a\<close> importing \<open>:a\<close> gets itself as its only
  dependency: the scan of the project below stores \<open>p:a \<mapsto> [p:a]\<close>.
\<close>

theorem self_import_through_alias_is_stored:
  "scanProjectModules self_import_fs 4 ''r'' new_scanner =
     Inr \<lparr>modules = [(''p:a'', \<lparr>m_name = ''p:a'', m_imports = ['':a''],
                                   m_file_path = ''r/src/p-a.ixx'', m_filename_valid = True,
                                   m_expected_filename = ''p-a.ixx''\<rparr>)],
          module_deps = [(''p:a'', [''p:a''])],
          build_targets = []\<rparr>"
  by code_simp

text \<open>
  C6.  A parent module (no \<open>:\<close> in its name) that has a partition \<open>q\<close> in the table gets a
  dependency list that contains \<open>q\<close>; the list is sorted, has no duplicates, and holds
  exactly the cleaned explicit imports and every table entry named \<open>p:...\<close>.  With no
  explicit imports it is exactly the sorted list of the partitions.
\<close>

theorem parent_depends_on_partitions:
  assumes "distinct (map fst table)" and "(p, info) \<in> set table"
    and "CHR '':'' \<notin> set p" and "q \<in> fst ` set table" and "starts_with q (p @ '':'')"
  shows "\<exists>deps. map_of (processModuleDependencies table []) p = Some deps
           \<and> q \<in> set deps \<and> sorted deps \<and> distinct deps
           \<and> set deps = set (clean_explicit p (m_imports info))
                \<union> {r \<in> fst ` set table. starts_with r (p @ '':'')}
           \<and> (m_imports info = [] \<longrightarrow>
                set deps = {r \<in> fst ` set table. starts_with r (p @ '':'')})"
proof -
  let ?ci = "clean_imports table p info"
  have parts: "set (partitions_of table p) = {r \<in> fst ` set table. starts_with r (p @ '':'')}"
    using assms(3) by (rule set_partitions_of)
  have q: "q \<in> set ?ci"
    using assms(4,5) parts by (simp add: clean_imports_def)
  then have "?ci \<noteq> []" by auto
  then have "map_of (processModuleDependencies table []) p = Some (sort_unique ?ci)"
    using assms(1,2) by (simp add: map_of_processModuleDependencies)
  moreover have "set (sort_unique ?ci) = set (clean_explicit p (m_imports info))
                \<union> {r \<in> fst ` set table. starts_with r (p @ '':'')}"
    using parts by (simp add: sort_unique_props clean_imports_def)
  moreover have "m_imports info = [] \<Longrightarrow>
      set (sort_unique ?ci) = {r \<in> fst ` set table. starts_with r (p @ '':'')}"
    using parts by (simp add: sort_unique_props clean_imports_def)
  ultimately show ?thesis
    using q by (simp add: sort_unique_props)
qed

theorem parent_depends_on_partitions_witness:
  "distinct (map fst partition_table)
   \<and> (''p'', module_named ''p'' [] ''r/src/p.ixx'') \<in> set partition_table
   \<and> CHR '':'' \<notin> set ''p'' \<and> ''p:a'' \<in> fst ` set partition_table
   \<and> starts_with ''p:a'' (''p'' @ '':'')
   \<and> map_of (processModuleDependencies partition_table []) ''p'' = Some [''p:a'', ''p:b'']
   \<and> (\<exists>deps. map_of (processModuleDependencies partition_table []) ''p'' = Some deps
         \<and> ''p:a'' \<in> set deps \<and> sorted deps \<and> distinct deps)"
proof -
  have h1: "distinct (map fst partition_table)" by code_simp
  have h2: "(''p'', module_named ''p'' [] ''r/src/p.ixx'') \<in> set partition_table"
    by (simp add: partition_table_def)
  have h3: "CHR '':'' \<notin> set ''p''" by simp
  have h4: "''p:a'' \<in> fst ` set partition_table" by (simp add: partition_table_def)
  have h5: "starts_with ''p:a'' (''p'' @ '':'')" by code_simp
  have v: "map_of (processModuleDependencies partition_table []) ''p'' = Some [''p:a'', ''p:b'']"
    by code_simp
  from parent_depends_on_partitions [OF h1 h2 h3 h4 h5]
  have "\<exists>deps. map_of (processModuleDependencies partition_table []) ''p'' = Some deps
         \<and> ''p:a'' \<in> set deps \<and> sorted deps \<and> distinct deps"
    by blast
  with h1 h2 h3 h4 h5 v show ?thesis by blast
qed

text \<open>
  C7.  An import that begins with \<open>:\<close> is stored with the importing module's parent in
  front: the parent is the module's name up to its first \<open>:\<close> (the whole name when it has
  none).  For a module whose name does not itself begin with \<open>:\<close>, no stored dependency
  is left in the bare form.
\<close>

theorem bare_partition_import_qualified:
  assumes "distinct (map fst table)" and "(n, info) \<in> set table"
    and "n \<noteq> []" and "hd n \<noteq> CHR '':''"
    and "imp \<in> set (m_imports info)" and "starts_with imp '':''"
  shows "\<exists>deps. map_of (processModuleDependencies table []) n = Some deps
           \<and> (takeWhile (\<lambda>c. c \<noteq> CHR '':'') n @ imp) \<in> set deps
           \<and> (\<forall>d \<in> set deps. \<not> starts_with d '':'')"
proof -
  let ?ci = "clean_imports table n info"
  have mm: "main_module_of n = takeWhile (\<lambda>c. c \<noteq> CHR '':'') n"
  proof (cases "CHR '':'' \<in> set n")
    case False
    have "main_module_of n = n"
      using False by (simp add: main_module_of_def)
    also have "n = takeWhile (\<lambda>c. c \<noteq> CHR '':'') n"
      using False by (induction n) auto
    finally show ?thesis .
  qed (simp add: main_module_of_def)
  obtain c cs where n: "n = c # cs" and c: "c \<noteq> CHR '':''"
    using assms(3,4) by (cases n) auto
  have imp: "imp \<noteq> []" "imp \<noteq> n"
    using assms(6) n c by (auto simp: starts_with_def)
  then have "main_module_of n @ imp \<in> set (clean_explicit n (m_imports info))"
    using assms(5,6) by (auto simp: set_clean_explicit)
  then have q: "takeWhile (\<lambda>c. c \<noteq> CHR '':'') n @ imp \<in> set ?ci"
    by (simp add: clean_imports_def mm)
  then have "?ci \<noteq> []" by auto
  then have look: "map_of (processModuleDependencies table []) n = Some (sort_unique ?ci)"
    using assms(1,2) by (simp add: map_of_processModuleDependencies)
  have "\<exists>r. main_module_of n = c # r"
    using n c by (simp add: main_module_of_def)
  then obtain r where mmc: "main_module_of n = c # r" ..
  have "\<not> starts_with d '':''" if "d \<in> set ?ci" for d
  proof -
    from that consider "d \<in> set (clean_explicit n (m_imports info))"
      | "d \<in> set (partitions_of table n)"
      by (auto simp: clean_imports_def)
    then show ?thesis
    proof cases
      case 1
      then show ?thesis using mmc c
        by (auto simp: set_clean_explicit starts_with_colon split: if_splits)
    next
      case 2
      then have "starts_with d (n @ '':'')"
        by (auto simp: partitions_of_def split: if_splits)
      then have "\<exists>r. d = c # r"
        unfolding n starts_with_def by (cases d) auto
      then show ?thesis using c
        by (auto simp: starts_with_colon)
    qed
  qed
  then show ?thesis using look q by (simp add: sort_unique_props)
qed

theorem bare_partition_import_qualified_witness:
  "distinct (map fst util_table)
   \<and> (''p:a'', module_named ''p:a'' ['':util''] ''r/src/p-a.ixx'') \<in> set util_table
   \<and> ''p:a'' \<noteq> [] \<and> hd ''p:a'' \<noteq> CHR '':''
   \<and> '':util'' \<in> set (m_imports (module_named ''p:a'' ['':util''] ''r/src/p-a.ixx''))
   \<and> starts_with '':util'' '':''
   \<and> map_of (processModuleDependencies util_table []) ''p:a'' = Some [''p:util'']
   \<and> (\<exists>deps. map_of (processModuleDependencies util_table []) ''p:a'' = Some deps
         \<and> ''p:util'' \<in> set deps \<and> (\<forall>d \<in> set deps. \<not> starts_with d '':''))"
proof -
  have h1: "distinct (map fst util_table)" by code_simp
  have h2: "(''p:a'', module_named ''p:a'' ['':util''] ''r/src/p-a.ixx'') \<in> set util_table"
    by (simp add: util_table_def)
  have h3: "''p:a'' \<noteq> []" by simp
  have h4: "hd ''p:a'' \<noteq> CHR '':''" by simp
  have h5: "'':util'' \<in> set (m_imports (module_named ''p:a'' ['':util''] ''r/src/p-a.ixx''))"
    by (simp add: module_named_def)
  have h6: "starts_with '':util'' '':''" by code_simp
  have v: "map_of (processModuleDependencies util_table []) ''p:a'' = Some [''p:util'']"
    by code_simp
  from bare_partition_import_qualified [OF h1 h2 h3 h4 h5 h6]
  have "\<exists>deps. map_of (processModuleDependencies util_table []) ''p:a'' = Some deps
         \<and> ''p:util'' \<in> set deps \<and> (\<forall>d \<in> set deps. \<not> starts_with d '':'')"
    by simp
  with h1 h2 h3 h4 h5 h6 v show ?thesis by blast
qed

section \<open>Claims about the parallel scan\<close>

text \<open>
  C8.  For every number of workers (at least one) the fork-join scan of a file list
  builds the table that parsing the files one after the other in list order builds; so
  the table is the same for every worker count, in particular for one worker, and
  \<open>scanProjectModules\<close> gives the same result whatever the hardware parallelism is.
\<close>

theorem scan_worker_count_invariant:
  assumes "0 < n" and "0 < hw" and "0 < hw'"
  shows "scan_files fs n ixx_files table = sequential_scan fs ixx_files table
         \<and> scan_files fs n ixx_files table = scan_files fs 1 ixx_files table
         \<and> scanProjectModules fs hw project_root st = scanProjectModules fs hw' project_root st"
proof -
  have seq: "scan_files fs k files tbl = sequential_scan fs files tbl" if "0 < k" for k files tbl
    using that by (rule scan_files_sequential)
  have "scanProjectModules fs hw project_root st = scanProjectModules fs hw' project_root st"
  proof (cases "fs_recursive_directory_iterator fs project_root")
    case None
    then show ?thesis by (simp add: scanProjectModules_def)
  next
    case (Some entries)
    let ?files = "map e_path (filter is_ixx_file entries)"
    show ?thesis
    proof (cases "cast_unsigned_int (length ?files) = 0")
      case True
      with Some show ?thesis by (simp add: scanProjectModules_def)
    next
      case False
      then have "0 < min hw (cast_unsigned_int (length ?files))"
        and "0 < min hw' (cast_unsigned_int (length ?files))"
        using assms(2,3) by simp_all
      then show ?thesis
        using Some by (simp add: scanProjectModules_def Let_def seq)
    qed
  qed
  with seq [OF assms(1)] seq [of 1] show ?thesis by simp
qed

theorem scan_worker_count_invariant_witness:
  "(0::nat) < 2 \<and> (0::nat) < 4 \<and> (0::nat) < 1
   \<and> scan_files (glob_fs a_then_b) 2 [''r/src/lit.ixx'', ''r/src/d/a.ixx'', ''r/src/d/b.ixx''] []
       = sequential_scan (glob_fs a_then_b)
           [''r/src/lit.ixx'', ''r/src/d/a.ixx'', ''r/src/d/b.ixx''] []
   \<and> scanProjectModules (glob_fs a_then_b) 4 ''r'' new_scanner
       = scanProjectModules (glob_fs a_then_b) 1 ''r'' new_scanner"
proof -
  have h1: "(0::nat) < 2" and h2: "(0::nat) < 4" and h3: "(0::nat) < 1" by simp_all
  from scan_worker_count_invariant [OF h1 h2 h3] h1 h2 h3 show ?thesis by blast
qed

section \<open>Claims about the build-descriptor reader\<close>

text \<open>
  C3, as the claim states it: the list a glob expression yields does not depend on the
  order in which the directory is enumerated.  It does: nothing sorts the list, and the
  same directory enumerated in the two orders gives two different lists, for the
  single-level and for the recursive form.
\<close>

theorem glob_list_follows_enumeration_order:
  "map_sum id t_module_interfaces
     (processGlobExpression (glob_fs a_then_b) ''d/*.ixx'' empty_target ''r/src'')
     = Inr [''d/a.ixx'', ''d/b.ixx'']
   \<and> map_sum id t_module_interfaces
     (processGlobExpression (glob_fs b_then_a) ''d/*.ixx'' empty_target ''r/src'')
     = Inr [''d/b.ixx'', ''d/a.ixx'']
   \<and> processGlobExpression (glob_fs a_then_b) ''d/**/*.ixx'' empty_target ''r/src''
     \<noteq> processGlobExpression (glob_fs b_then_a) ''d/**/*.ixx'' empty_target ''r/src''
   \<and> mset a_then_b = mset b_then_a"
  by code_simp

text \<open>
  C3, amended.  Two snapshots that enumerate the same entries of every directory, in
  whatever order, give the same failure or the same files: the two lists have the same
  elements with the same multiplicities, so they are equal once sorted.
\<close>

theorem glob_files_independent_of_order:
  assumes "fs_exists fs' = fs_exists fs" and "fs_relative fs' = fs_relative fs"
    and "\<forall>dir. map_option mset (fs_directory_iterator fs' dir)
                 = map_option mset (fs_directory_iterator fs dir)"
    and "\<forall>dir. map_option mset (fs_recursive_directory_iterator fs' dir)
                 = map_option mset (fs_recursive_directory_iterator fs dir)"
  shows "files_of (processGlobExpression fs' glob_expr target base)
           = files_of (processGlobExpression fs glob_expr target base)
         \<and> sorted_files_of (processGlobExpression fs' glob_expr target base)
           = sorted_files_of (processGlobExpression fs glob_expr target base)"
proof -
  have single: "files_of (case fs_directory_iterator fs' dir of None \<Rightarrow> Inl FilesystemError
                  | Some entries \<Rightarrow> Inr (target\<lparr>t_module_interfaces :=
                      t_module_interfaces target @ glob_matches fs' keep entries base\<rparr>))
              = files_of (case fs_directory_iterator fs dir of None \<Rightarrow> Inl FilesystemError
                  | Some entries \<Rightarrow> Inr (target\<lparr>t_module_interfaces :=
                      t_module_interfaces target @ glob_matches fs keep entries base\<rparr>))"
    for dir keep
    using assms(3) [rule_format, of dir] assms(2)
    by (cases "fs_directory_iterator fs' dir"; cases "fs_directory_iterator fs dir")
       (auto simp: files_of_def mset_glob_matches)
  have recursive: "files_of (case fs_recursive_directory_iterator fs' dir of
                    None \<Rightarrow> Inl FilesystemError
                  | Some entries \<Rightarrow> Inr (target\<lparr>t_module_interfaces :=
                      t_module_interfaces target @ glob_matches fs' keep entries base\<rparr>))
              = files_of (case fs_recursive_directory_iterator fs dir of
                    None \<Rightarrow> Inl FilesystemError
                  | Some entries \<Rightarrow> Inr (target\<lparr>t_module_interfaces :=
                      t_module_interfaces target @ glob_matches fs keep entries base\<rparr>))"
    for dir keep
    using assms(4) [rule_format, of dir] assms(2)
    by (cases "fs_recursive_directory_iterator fs' dir";
        cases "fs_recursive_directory_iterator fs dir")
       (auto simp: files_of_def mset_glob_matches)
  have files: "files_of (processGlobExpression fs' glob_expr target base)
           = files_of (processGlobExpression fs glob_expr target base)"
    unfolding processGlobExpression_def Let_def
    using single recursive by (simp add: assms(1))
  have "sorted_files_of r' = sorted_files_of r" if "files_of r' = files_of r" for r r'
    using that
    by (cases r; cases r') (auto simp: files_of_def sorted_files_of_def intro: sort_cong_mset)
  with files show ?thesis by blast
qed

theorem glob_files_independent_of_order_witness:
  "fs_exists (glob_fs b_then_a) = fs_exists (glob_fs a_then_b)
   \<and> fs_relative (glob_fs b_then_a) = fs_relative (glob_fs a_then_b)
   \<and> (\<forall>dir. map_option mset (fs_directory_iterator (glob_fs b_then_a) dir)
              = map_option mset (fs_directory_iterator (glob_fs a_then_b) dir))
   \<and> (\<forall>dir. map_option mset (fs_recursive_directory_iterator (glob_fs b_then_a) dir)
              = map_option mset (fs_recursive_directory_iterator (glob_fs a_then_b) dir))
   \<and> sorted_files_of (processGlobExpression (glob_fs b_then_a) ''d/*.ixx'' empty_target ''r/src'')
       = sorted_files_of (processGlobExpression (glob_fs a_then_b) ''d/*.ixx'' empty_target ''r/src'')
   \<and> sorted_files_of (processGlobExpression (glob_fs a_then_b) ''d/*.ixx'' empty_target ''r/src'')
       = Inr [''d/a.ixx'', ''d/b.ixx'']"
proof -
  have h1: "fs_exists (glob_fs b_then_a) = fs_exists (glob_fs a_then_b)"
    by (simp add: glob_fs_def)
  have h2: "fs_relative (glob_fs b_then_a) = fs_relative (glob_fs a_then_b)"
    by (simp add: glob_fs_def)
  have h3: "\<forall>dir. map_option mset (fs_directory_iterator (glob_fs b_then_a) dir)
              = map_option mset (fs_directory_iterator (glob_fs a_then_b) dir)"
    by (simp add: glob_fs_def a_then_b_def b_then_a_def)
  have h4: "\<forall>dir. map_option mset (fs_recursive_directory_iterator (glob_fs b_then_a) dir)
              = map_option mset (fs_recursive_directory_iterator (glob_fs a_then_b) dir)"
    by (simp add: glob_fs_def a_then_b_def b_then_a_def)
  have v: "sorted_files_of (processGlobExpression (glob_fs a_then_b) ''d/*.ixx'' empty_target ''r/src'')
       = Inr [''d/a.ixx'', ''d/b.ixx'']"
    by code_simp
  from glob_files_independent_of_order [OF h1 h2 h3 h4] h1 h2 h3 h4 v
  show ?thesis by blast
qed

text \<open>
  C5, as the claim states it: paths recorded by glob expansion are relative to the project
  root, also when the descriptor is found in \<open>src\<close>.  For the project \<open>r\<close> with its
  descriptor at \<open>r/src/BUILD\<close> the files \<open>r/src/d/a.ixx\<close> and \<open>r/src/d/b.ixx\<close> are recorded
  as \<open>d/a.ixx\<close> and \<open>d/b.ixx\<close>; relative to the project root they are \<open>src/d/a.ixx\<close> and
  \<open>src/d/b.ixx\<close>.
\<close>

theorem glob_paths_not_relative_to_project_root:
  "find_build_file (glob_fs a_then_b) ''r'' = Some ''r/src/BUILD''
   \<and> parseBuildFile (glob_fs a_then_b) ''r/src/BUILD'' new_scanner =
       Inr \<lparr>modules = [], module_deps = [],
            build_targets =
              [(''g'', \<lparr>t_name = ''g'', t_type = ''cc_module_library'',
                        t_module_interfaces = [''d/a.ixx'', ''d/b.ixx''],
                        t_module_dependencies = []\<rparr>)]\<rparr>
   \<and> fs_relative (glob_fs a_then_b) ''r/src/d/a.ixx'' ''r'' = ''src/d/a.ixx''
   \<and> fs_relative (glob_fs a_then_b) ''r/src/d/b.ixx'' ''r'' = ''src/d/b.ixx''
   \<and> ''d/a.ixx'' \<noteq> ''src/d/a.ixx'' \<and> ''d/b.ixx'' \<noteq> ''src/d/b.ixx''"
  by code_simp

text \<open>
  C5, amended.  Every target in the table that \<open>parseBuildFile\<close> builds was read from a
  match of the target pattern in the descriptor's text, and when the interface field of
  that match is a glob, every path in the target's interface list is the path
  \<open>std::filesystem::relative\<close> gives for an enumerated entry with respect to the
  directory that holds the descriptor file (\<open>build_file_path.parent_path()\<close>).  That
  directory is the project root only when the descriptor is found in the root itself.
  (A field that is a list gives exactly its quoted \<open>.ixx\<close> names, no field gives no
  path.)
\<close>

theorem glob_paths_relative_to_descriptor_directory:
  assumes "parseBuildFile fs build_file_path new_scanner = Inr st"
    and "(n, target) \<in> set (build_targets st)"
  shows "\<exists>content m.
           fs_read fs build_file_path = Some content
           \<and> m \<in> set (regex_iter_pos build_target_regex content 0)
           \<and> n = t_name target \<and> t_name target = group2 (snd m)
           \<and> (case interfaces_field content m of
                None \<Rightarrow> t_module_interfaces target = []
              | Some field \<Rightarrow>
                  if contains field ''glob(''
                  then \<forall>x \<in> set (t_module_interfaces target).
                         \<exists>entry \<in> enumerated fs.
                           x = fs_relative fs (e_path entry) (parent_path build_file_path)
                  else t_module_interfaces target
                         = map group1 (regex_iter file_pattern field))"
  using parseBuildFile_origin [OF assms] unfolding read_from_match_def by blast

theorem glob_paths_relative_to_descriptor_directory_witness:
  "parseBuildFile (glob_fs a_then_b) ''r/src/BUILD'' new_scanner = Inr glob_parsed
   \<and> (''g'', \<lparr>t_name = ''g'', t_type = ''cc_module_library'',
               t_module_interfaces = [''d/a.ixx'', ''d/b.ixx''],
               t_module_dependencies = []\<rparr>) \<in> set (build_targets glob_parsed)
   \<and> regex_iter_pos build_target_regex glob_build 0 = [(0, [''cc_module_library'', ''g''])]
   \<and> interfaces_field glob_build (0, [''cc_module_library'', ''g'']) = Some glob_field
   \<and> contains glob_field ''glob(''
   \<and> parent_path ''r/src/BUILD'' = ''r/src''
   \<and> (\<exists>entry \<in> enumerated (glob_fs a_then_b).
         ''d/a.ixx'' = fs_relative (glob_fs a_then_b) (e_path entry) ''r/src'')
   \<and> (\<exists>entry \<in> enumerated (glob_fs a_then_b).
         ''d/b.ixx'' = fs_relative (glob_fs a_then_b) (e_path entry) ''r/src'')"
proof -
  let ?fs = "glob_fs a_then_b"
  let ?t = "\<lparr>t_name = ''g'', t_type = ''cc_module_library'',
               t_module_interfaces = [''d/a.ixx'', ''d/b.ixx''],
               t_module_dependencies = []\<rparr>"
  let ?m = "(0 :: nat, [''cc_module_library'', ''g''])"
  have h1: "parseBuildFile ?fs ''r/src/BUILD'' new_scanner = Inr glob_parsed"
    by code_simp
  have h2: "(''g'', ?t) \<in> set (build_targets glob_parsed)"
    by (simp add: glob_parsed_def)
  have rd: "fs_read ?fs ''r/src/BUILD'' = Some glob_build" by code_simp
  have ms: "regex_iter_pos build_target_regex glob_build 0 = [?m]" by code_simp
  have fld: "interfaces_field glob_build ?m = Some glob_field" by code_simp
  have g: "contains glob_field ''glob(''" by code_simp
  have p: "parent_path ''r/src/BUILD'' = ''r/src''" by code_simp
  from glob_paths_relative_to_descriptor_directory [OF h1 h2]
  obtain content m where c: "fs_read ?fs ''r/src/BUILD'' = Some content"
    and m: "m \<in> set (regex_iter_pos build_target_regex content 0)"
    and branch: "case interfaces_field content m of
                None \<Rightarrow> t_module_interfaces ?t = []
              | Some field \<Rightarrow>
                  if contains field ''glob(''
                  then \<forall>x \<in> set (t_module_interfaces ?t).
                         \<exists>entry \<in> enumerated ?fs.
                           x = fs_relative ?fs (e_path entry) (parent_path ''r/src/BUILD'')
                  else t_module_interfaces ?t = map group1 (regex_iter file_pattern field)"
    by blast
  from c rd have content: "content = glob_build" by simp
  with m ms have "m = ?m" by simp
  with branch content fld g p
  have "\<forall>x \<in> set [''d/a.ixx'', ''d/b.ixx''].
         \<exists>entry \<in> enumerated ?fs. x = fs_relative ?fs (e_path entry) ''r/src''"
    by simp
  then have "(\<exists>entry \<in> enumerated ?fs. ''d/a.ixx'' = fs_relative ?fs (e_path entry) ''r/src'')
     \<and> (\<exists>entry \<in> enumerated ?fs. ''d/b.ixx'' = fs_relative ?fs (e_path entry) ''r/src'')"
    by simp
  with h1 h2 ms fld g p show ?thesis by blast
qed

text \<open>
  On this project the form the amended statement gives is not the root-relative one: no
  enumerated entry has \<open>src/d/a.ixx\<close> as its path relative to \<open>r/src\<close>.
\<close>

lemma enumerated_glob_fs:
  "enumerated (glob_fs a_then_b) \<subseteq>
     set [directory ''r/src'', regular ''r/src/BUILD'', regular ''r/src/lit.ixx'',
          directory ''r/src/d'', regular ''r/src/d/a.ixx'', regular ''r/src/d/b.ixx'']"
  by (auto simp: enumerated_def glob_fs_def a_then_b_def split: if_splits)

lemma root_relative_path_not_of_recorded_form:
  "\<not> (\<exists>entry \<in> enumerated (glob_fs a_then_b).
        ''src/d/a.ixx'' = fs_relative (glob_fs a_then_b) (e_path entry) ''r/src'')"
proof -
  have "list_all
          (\<lambda>entry. ''src/d/a.ixx'' \<noteq> fs_relative (glob_fs a_then_b) (e_path entry) ''r/src'')
          [directory ''r/src'', regular ''r/src/BUILD'', regular ''r/src/lit.ixx'',
           directory ''r/src/d'', regular ''r/src/d/a.ixx'', regular ''r/src/d/b.ixx'']"
    by code_simp
  then have "\<forall>entry \<in> set [directory ''r/src'', regular ''r/src/BUILD'',
                              regular ''r/src/lit.ixx'', directory ''r/src/d'',
                              regular ''r/src/d/a.ixx'', regular ''r/src/d/b.ixx''].
           ''src/d/a.ixx'' \<noteq> fs_relative (glob_fs a_then_b) (e_path entry) ''r/src''"
    unfolding list_all_iff .
  with enumerated_glob_fs show ?thesis by blast
qed

text \<open>
  C10.  When the interface field contains \<open>glob(\<close>, \<open>parseModuleInterfaces\<close> expands the
  quoted expressions of the first \<open>glob([...])\<close> group and nothing else: every path it adds
  comes from a directory iterator, none from a literal name.  Literal \<open>.ixx\<close> names are
  collected exactly when the field has no \<open>glob(\<close> in it.
\<close>

theorem glob_field_ignores_literal_names:
  "(contains interfaces_str ''glob('' \<longrightarrow>
      parseModuleInterfaces fs interfaces_str target base =
        (case regex_search glob_pattern interfaces_str of
           None \<Rightarrow> Inr target
         | Some (i, caps, rest) \<Rightarrow>
             process_globs fs (map group1 (regex_iter glob_expr_pattern (group1 caps)))
               target base)
      \<and> (\<forall>target'. parseModuleInterfaces fs interfaces_str target base = Inr target' \<longrightarrow>
            (\<exists>added. t_module_interfaces target' = t_module_interfaces target @ added
               \<and> (\<forall>x \<in> set added.
                     \<exists>entry \<in> enumerated fs. x = fs_relative fs (e_path entry) base))))
   \<and> (\<not> contains interfaces_str ''glob('' \<longrightarrow>
      parseModuleInterfaces fs interfaces_str target base =
        Inr (target\<lparr>t_module_interfaces := t_module_interfaces target
               @ map group1 (regex_iter file_pattern interfaces_str)\<rparr>))"
proof (intro conjI impI allI)
  assume "contains interfaces_str ''glob(''"
  then show "parseModuleInterfaces fs interfaces_str target base =
        (case regex_search glob_pattern interfaces_str of
           None \<Rightarrow> Inr target
         | Some (i, caps, rest) \<Rightarrow>
             process_globs fs (map group1 (regex_iter glob_expr_pattern (group1 caps)))
               target base)"
    by (simp add: parseModuleInterfaces_def)
next
  fix target'
  assume g: "contains interfaces_str ''glob(''"
    and r: "parseModuleInterfaces fs interfaces_str target base = Inr target'"
  from parseModuleInterfaces_glob_added [OF g r] obtain added where
    t': "target' = target\<lparr>t_module_interfaces := t_module_interfaces target @ added\<rparr>"
    and added: "\<forall>x \<in> set added. \<exists>entry \<in> enumerated fs. x = fs_relative fs (e_path entry) base"
    by blast
  from t' have "t_module_interfaces target' = t_module_interfaces target @ added" by simp
  with added show "\<exists>added. t_module_interfaces target' = t_module_interfaces target @ added
      \<and> (\<forall>x \<in> set added. \<exists>entry \<in> enumerated fs. x = fs_relative fs (e_path entry) base)"
    by blast
next
  assume "\<not> contains interfaces_str ''glob(''"
  then show "parseModuleInterfaces fs interfaces_str target base =
        Inr (target\<lparr>t_module_interfaces := t_module_interfaces target
               @ map group1 (regex_iter file_pattern interfaces_str)\<rparr>)"
    by (simp add: parseModuleInterfaces_def)
qed

theorem glob_field_ignores_literal_names_witness:
  "contains glob_field ''glob('' \<and> \<not> contains list_field ''glob(''
   \<and> parseModuleInterfaces (glob_fs a_then_b) glob_field empty_target ''r/src''
       = Inr (empty_target\<lparr>t_module_interfaces := [''d/a.ixx'', ''d/b.ixx'']\<rparr>)
   \<and> (\<exists>added. [''d/a.ixx'', ''d/b.ixx''] = t_module_interfaces empty_target @ added
         \<and> (\<forall>x \<in> set added. \<exists>entry \<in> enumerated (glob_fs a_then_b).
               x = fs_relative (glob_fs a_then_b) (e_path entry) ''r/src''))
   \<and> parseModuleInterfaces (glob_fs a_then_b) list_field empty_target ''r/src''
       = Inr (empty_target\<lparr>t_module_interfaces := [''x.ixx'', ''sub/y.ixx'']\<rparr>)"
proof -
  let ?fs = "glob_fs a_then_b"
  have h1: "contains glob_field ''glob(''" by code_simp
  have h2: "\<not> contains list_field ''glob(''" by code_simp
  have v1: "parseModuleInterfaces ?fs glob_field empty_target ''r/src''
       = Inr (empty_target\<lparr>t_module_interfaces := [''d/a.ixx'', ''d/b.ixx'']\<rparr>)"
    by code_simp
  have lits: "map group1 (regex_iter file_pattern list_field) = [''x.ixx'', ''sub/y.ixx'']"
    by code_simp
  have e: "t_module_interfaces empty_target = []" by (simp add: empty_target_def)
  note inst = glob_field_ignores_literal_names [of glob_field ?fs empty_target "''r/src''"]
  from inst h1 v1
  have a: "\<exists>added. t_module_interfaces (empty_target\<lparr>t_module_interfaces :=
                      [''d/a.ixx'', ''d/b.ixx'']\<rparr>) = t_module_interfaces empty_target @ added
         \<and> (\<forall>x \<in> set added. \<exists>entry \<in> enumerated ?fs.
               x = fs_relative ?fs (e_path entry) ''r/src'')"
    by blast
  from glob_field_ignores_literal_names [of list_field ?fs empty_target "''r/src''"] h2
  have "parseModuleInterfaces ?fs list_field empty_target ''r/src''
       = Inr (empty_target\<lparr>t_module_interfaces := t_module_interfaces empty_target
               @ map group1 (regex_iter file_pattern list_field)\<rparr>)"
    by blast
  then have v2: "parseModuleInterfaces ?fs list_field empty_target ''r/src''
       = Inr (empty_target\<lparr>t_module_interfaces := [''x.ixx'', ''sub/y.ixx'']\<rparr>)"
    by (simp only: lits e append_Nil)
  from a have a': "\<exists>added. [''d/a.ixx'', ''d/b.ixx''] = t_module_interfaces empty_target @ added
         \<and> (\<forall>x \<in> set added. \<exists>entry \<in> enumerated ?fs.
               x = fs_relative ?fs (e_path entry) ''r/src'')"
    by simp
  from h1 h2 v1 a' v2 show ?thesis by blast
qed

section \<open>Claims about the patcher and the program\<close>

text \<open>
  C2.  A second run on the tree the first run left behind should compute the text the
  first run wrote.  When the first run appended a warning comment it does not: the
  pattern for an existing block ends at the comma after the closing brace, so the second
  run replaces the block, leaves the old comment behind it and writes the descriptor
  again, now with the comment twice.  Without a warning the second run writes nothing, as
  the run on the glob project shows.
\<close>

theorem second_run_rewrites_descriptor_with_warning:
  "main example_library misnamed_fs 4 [''r''] = (Exit 0, Some first_run_text)
   \<and> main example_library (after_write misnamed_fs ''r/src/BUILD'' (Some first_run_text)) 4
         [''r'']
       = (Exit 0, Some second_run_text)
   \<and> second_run_text \<noteq> first_run_text
   \<and> main example_library (glob_fs a_then_b) 4 [''r''] = (Exit 0, Some synced_build)
   \<and> main example_library (after_write (glob_fs a_then_b) ''r/src/BUILD'' (Some synced_build))
         4 [''r'']
       = (Exit 0, None)"
  by code_simp

text \<open>
  C9.  Whatever \<open>updateBuildFile\<close> writes is the text computed from the original content
  by the per-target edits, and differs from the original; when the edits leave the text as
  it was, nothing is written.
\<close>

theorem descriptor_written_only_on_change:
  "(\<forall>new_text. updateBuildFile lib fs build_file_path st = Inr (Some new_text) \<longrightarrow>
      (\<exists>original. fs_read fs build_file_path = Some original
         \<and> patched_text lib st original = Inr new_text
         \<and> new_text \<noteq> original))
   \<and> (\<forall>original. fs_read fs build_file_path = Some original
         \<and> patched_text lib st original = Inr original \<longrightarrow>
       updateBuildFile lib fs build_file_path st = Inr None)"
proof (intro conjI allI impI)
  fix new_text
  assume w: "updateBuildFile lib fs build_file_path st = Inr (Some new_text)"
  show "\<exists>original. fs_read fs build_file_path = Some original
         \<and> patched_text lib st original = Inr new_text
         \<and> new_text \<noteq> original"
  proof (cases "fs_read fs build_file_path")
    case None
    with w show ?thesis by (simp add: updateBuildFile_def)
  next
    case (Some original)
    with w show ?thesis
      by (cases "patched_text lib st original")
         (auto simp: updateBuildFile_def split: if_splits)
  qed
next
  fix original
  assume "fs_read fs build_file_path = Some original
         \<and> patched_text lib st original = Inr original"
  then show "updateBuildFile lib fs build_file_path st = Inr None"
    by (simp add: updateBuildFile_def)
qed

theorem descriptor_written_only_on_change_witness:
  "updateBuildFile example_library misnamed_fs ''r/src/BUILD'' misnamed_state
     = Inr (Some first_run_text)
   \<and> (\<exists>original. fs_read misnamed_fs ''r/src/BUILD'' = Some original
         \<and> patched_text example_library misnamed_state original
             = Inr first_run_text
         \<and> first_run_text \<noteq> original)
   \<and> fs_read synced_fs ''r/src/BUILD'' = Some synced_build
   \<and> patched_text example_library synced_state synced_build
       = Inr synced_build
   \<and> updateBuildFile example_library synced_fs ''r/src/BUILD'' synced_state = Inr None"
proof -
  have w: "updateBuildFile example_library misnamed_fs ''r/src/BUILD'' misnamed_state
             = Inr (Some first_run_text)"
    by code_simp
  have r: "fs_read synced_fs ''r/src/BUILD'' = Some synced_build"
    by code_simp
  have u: "patched_text example_library synced_state synced_build
             = Inr synced_build"
    by code_simp
  from descriptor_written_only_on_change
         [of example_library misnamed_fs "''r/src/BUILD''" misnamed_state] w
  have a: "\<exists>original. fs_read misnamed_fs ''r/src/BUILD'' = Some original
         \<and> patched_text example_library misnamed_state original
             = Inr first_run_text
         \<and> first_run_text \<noteq> original"
    by blast
  from descriptor_written_only_on_change
         [of example_library synced_fs "''r/src/BUILD''" synced_state] r u
  have b: "updateBuildFile example_library synced_fs ''r/src/BUILD'' synced_state = Inr None"
    by blast
  from w a r u b show ?thesis by blast
qed

text \<open>
  C4, as the claim states it: a descriptor file that cannot be read ends the run with exit
  code 1.  It does not: \<open>parseBuildFile\<close> and \<open>updateBuildFile\<close> log the failure and
  return, and \<open>main\<close> goes on to return 0.
\<close>

theorem unreadable_descriptor_exits_zero:
  "fs_exists unreadable_fs ''r''
   \<and> find_build_file unreadable_fs ''r'' = Some ''r/src/BUILD''
   \<and> fs_read unreadable_fs ''r/src/BUILD'' = None
   \<and> main example_library unreadable_fs 4 [''r''] = (Exit 0, None)"
  by code_simp

text \<open>
  C4, amended.  The exit code is 1 exactly when no project root is given, the project root
  does not exist, or the descriptor file exists at neither place, and then nothing is
  written.  In every other case a run that returns from \<open>main\<close> returns 0.  A descriptor
  file that exists and cannot be opened is one of these other cases: nothing is written,
  and the run ends as the scan of the project ends.
\<close>

theorem exit_code_one_only_for_missing_inputs:
  "(fst (main lib fs hw args) = Exit 1 \<longleftrightarrow> inputs_missing fs args)
   \<and> (inputs_missing fs args \<longrightarrow> snd (main lib fs hw args) = None)
   \<and> (\<not> inputs_missing fs args \<longrightarrow>
        fst (main lib fs hw args) = Exit 0 \<or> (\<exists>err. main lib fs hw args = (Crashed err, None)))
   \<and> (\<forall>project_root rest b.
        args = project_root # rest \<and> fs_exists fs project_root
        \<and> find_build_file fs project_root = Some b \<and> fs_read fs b = None \<longrightarrow>
        main lib fs hw args =
          (case scanProjectModules fs hw project_root new_scanner of
             Inl err \<Rightarrow> (Crashed err, None)
           | Inr st \<Rightarrow> (Exit 0, None)))"
proof -
  have found: "find_build_file fs project_root = None \<longleftrightarrow>
      \<not> fs_exists fs (path_append (path_append project_root ''src'') ''BUILD'')
      \<and> \<not> fs_exists fs (path_append project_root ''BUILD'')" for project_root
    by (simp add: find_build_file_def Let_def)
  have run: "(case run_scanner lib fs hw project_root b of
                Inl err \<Rightarrow> (Crashed err, None)
              | Inr written \<Rightarrow> (Exit 0, written)) = r \<Longrightarrow>
             fst r \<noteq> Exit 1 \<and> (fst r = Exit 0 \<or> (\<exists>err. r = (Crashed err, None)))"
    for project_root b r
    by (cases "run_scanner lib fs hw project_root b") auto
  have main_found: "main lib fs hw (project_root # rest) =
      (case run_scanner lib fs hw project_root b of
         Inl err \<Rightarrow> (Crashed err, None)
       | Inr written \<Rightarrow> (Exit 0, written))"
    if "fs_exists fs project_root" "find_build_file fs project_root = Some b"
    for project_root rest b
    using that by (simp add: main_def)
  have first: "(fst (main lib fs hw args) = Exit 1 \<longleftrightarrow> inputs_missing fs args)
     \<and> (inputs_missing fs args \<longrightarrow> snd (main lib fs hw args) = None)
     \<and> (\<not> inputs_missing fs args \<longrightarrow>
          fst (main lib fs hw args) = Exit 0 \<or> (\<exists>err. main lib fs hw args = (Crashed err, None)))"
  proof (cases args)
    case Nil
    then show ?thesis by (simp add: main_def inputs_missing_def)
  next
    case (Cons project_root rest)
    show ?thesis
    proof (cases "fs_exists fs project_root")
      case False
      with Cons show ?thesis by (simp add: main_def inputs_missing_def)
    next
      case True
      show ?thesis
      proof (cases "find_build_file fs project_root")
        case None
        with Cons True found [of project_root] show ?thesis
          by (simp add: main_def inputs_missing_def)
      next
        case (Some b)
        have present: "\<not> inputs_missing fs args"
          using Cons True Some found [of project_root] by (auto simp: inputs_missing_def)
        from run [OF main_found [OF True Some, of rest, symmetric]] present Cons
        show ?thesis by simp
      qed
    qed
  qed
  have second: "main lib fs hw args =
          (case scanProjectModules fs hw project_root new_scanner of
             Inl err \<Rightarrow> (Crashed err, None)
           | Inr st \<Rightarrow> (Exit 0, None))"
    if "args = project_root # rest" "fs_exists fs project_root"
      "find_build_file fs project_root = Some b" "fs_read fs b = None"
    for project_root rest b
  proof -
    have p: "parseBuildFile fs b new_scanner = Inr new_scanner"
      using that(4) by (simp add: parseBuildFile_def)
    have u: "updateBuildFile lib fs b st = Inr None" for st
      using that(4) by (simp add: updateBuildFile_def)
    have "run_scanner lib fs hw project_root b =
            (case scanProjectModules fs hw project_root new_scanner of
               Inl err \<Rightarrow> Inl err | Inr st \<Rightarrow> Inr None)"
      by (cases "scanProjectModules fs hw project_root new_scanner")
         (simp_all add: run_scanner_def scanner_state_def p u)
    then show ?thesis
      unfolding that(1) main_found [OF that(2,3)]
      by (cases "scanProjectModules fs hw project_root new_scanner") simp_all
  qed
  from first second show ?thesis by blast
qed

theorem exit_code_one_only_for_missing_inputs_witness:
  "inputs_missing misnamed_fs [] \<and> main example_library misnamed_fs 4 [] = (Exit 1, None)
   \<and> inputs_missing misnamed_fs [''elsewhere'']
   \<and> main example_library misnamed_fs 4 [''elsewhere''] = (Exit 1, None)
   \<and> \<not> inputs_missing misnamed_fs [''r'']
   \<and> fst (main example_library misnamed_fs 4 [''r'']) = Exit 0
   \<and> fs_exists unreadable_fs ''r''
   \<and> find_build_file unreadable_fs ''r'' = Some ''r/src/BUILD''
   \<and> fs_read unreadable_fs ''r/src/BUILD'' = None
   \<and> fst (main example_library unreadable_fs 4 [''r'']) \<noteq> Exit 1
   \<and> snd (main example_library unreadable_fs 4 [''r'']) = None"
proof -
  have m1: "inputs_missing misnamed_fs []" by code_simp
  have m2: "inputs_missing misnamed_fs [''elsewhere'']" by code_simp
  have m3: "\<not> inputs_missing misnamed_fs [''r'']" by code_simp
  have v1: "main example_library misnamed_fs 4 [] = (Exit 1, None)" by code_simp
  have v2: "main example_library misnamed_fs 4 [''elsewhere''] = (Exit 1, None)" by code_simp
  have v3: "fst (main example_library misnamed_fs 4 [''r'']) = Exit 0" by code_simp
  have u1: "fs_exists unreadable_fs ''r''" by code_simp
  have u2: "find_build_file unreadable_fs ''r'' = Some ''r/src/BUILD''" by code_simp
  have u3: "fs_read unreadable_fs ''r/src/BUILD'' = None" by code_simp
  have u4: "\<not> inputs_missing unreadable_fs [''r'']" by code_simp
  from exit_code_one_only_for_missing_inputs [of example_library unreadable_fs 4 "[''r'']"] u4
  have a: "fst (main example_library unreadable_fs 4 [''r'']) \<noteq> Exit 1"
    by blast
  from exit_code_one_only_for_missing_inputs [of example_library unreadable_fs 4 "[''r'']"] u1 u2 u3
  have "main example_library unreadable_fs 4 [''r''] =
          (case scanProjectModules unreadable_fs 4 ''r'' new_scanner of
             Inl err \<Rightarrow> (Crashed err, None)
           | Inr st \<Rightarrow> (Exit 0, None))"
    by blast
  then have b: "snd (main example_library unreadable_fs 4 [''r'']) = None"
    by (cases "scanProjectModules unreadable_fs 4 ''r'' new_scanner") simp_all
  from m1 m2 m3 v1 v2 v3 u1 u2 u3 a b show ?thesis by blast
qed

end
